theory Spec2Isabelle
  imports Main "HOL-Library.Sublist"
begin

section \<open>JavaScript values\<close>

text \<open>
  The prompt payload of \<^verbatim>\<open>src/process/tau-rpc.ts\<close> has type \<^verbatim>\<open>unknown\<close>, and the
  client decodes every output line with \<^verbatim>\<open>JSON.parse\<close>. Both are values of the
  datatype below: plain data, that is \<^verbatim>\<open>undefined\<close>, \<^verbatim>\<open>null\<close>, booleans, numbers,
  BigInts, strings, arrays, and ordinary objects whose prototype is
  \<^verbatim>\<open>Object.prototype\<close>. There are no functions, symbols, getters, proxies or
  cycles, so no property of a value can be called. A string is a list of 8-bit
  characters. A number is kept as the text that the runtime prints for it
  (\<^verbatim>\<open>String(n)\<close>), so no floating point arithmetic is modelled; a number read by
  the JSON decoder keeps its literal. An object is the list of its own
  properties in the order of their creation, with distinct keys.
\<close>

datatype js_error = Error string | TypeError string

datatype jsval =
    JUndefined
  | JNull
  | JBool bool
  | JNum string
  | JBigInt string
  | JStr string
  | JArr "jsval list"
  | JObj "(string \<times> jsval) list"

text \<open>\<^verbatim>\<open>Array.prototype.join\<close> on an array of strings.\<close>

fun join :: "string \<Rightarrow> string list \<Rightarrow> string" where
  "join sep [] = []"
| "join sep [x] = x"
| "join sep (x # y # ys) = x @ sep @ join sep (y # ys)"

text \<open>Reading a property of an object; every other value has no own property
  named \<^verbatim>\<open>content\<close>, \<^verbatim>\<open>text\<close> or \<^verbatim>\<open>type\<close>, so the read gives \<^verbatim>\<open>undefined\<close>.\<close>

fun js_get :: "jsval \<Rightarrow> string \<Rightarrow> jsval" where
  "js_get (JObj kvs) k = (case map_of kvs k of None \<Rightarrow> JUndefined | Some v \<Rightarrow> v)"
| "js_get v k = JUndefined"

text \<open>\<^verbatim>\<open>x && typeof x === "object"\<close>: arrays and objects, but not \<^verbatim>\<open>null\<close>.\<close>

fun is_object :: "jsval \<Rightarrow> bool" where
  "is_object (JArr xs) = True"
| "is_object (JObj kvs) = True"
| "is_object v = False"

subsection \<open>JSON.stringify\<close>

definition hexdigit :: "nat \<Rightarrow> char" where
  "hexdigit n = ''0123456789abcdef'' ! (n mod 16)"

definition quote_char :: "char \<Rightarrow> string" where
  "quote_char c =
     (if c = CHR 0x08 then [CHR 0x5C, CHR ''b'']
      else if c = CHR 0x09 then [CHR 0x5C, CHR ''t'']
      else if c = CHR 0x0A then [CHR 0x5C, CHR ''n'']
      else if c = CHR 0x0C then [CHR 0x5C, CHR ''f'']
      else if c = CHR 0x0D then [CHR 0x5C, CHR ''r'']
      else if c = CHR 0x22 then [CHR 0x5C, CHR 0x22]
      else if c = CHR 0x5C then [CHR 0x5C, CHR 0x5C]
      else if of_char c < (32::nat)
        then [CHR 0x5C, CHR ''u'', CHR ''0'', CHR ''0'',
              hexdigit (of_char c div 16), hexdigit (of_char c)]
      else [c])"

definition quote :: "string \<Rightarrow> string" where
  "quote s = [CHR 0x22] @ concat (map quote_char s) @ [CHR 0x22]"

definition is_digit :: "char \<Rightarrow> bool" where
  "is_digit c = (48 \<le> (of_char c :: nat) \<and> (of_char c :: nat) \<le> 57)"

text \<open>
  The runtime lists the own properties of an object with the array indices
  first, in ascending order, and the other keys after them in the order of
  their creation. An array index is the canonical decimal numeral of a number
  below 4294967295, without a leading zero.
\<close>

definition digits_value :: "string \<Rightarrow> int" where
  "digits_value k = foldl (\<lambda>n c. 10 * n + ((of_char c :: int) - 48)) 0 k"

definition is_array_index :: "string \<Rightarrow> bool" where
  "is_array_index k =
     (case k of
        [] \<Rightarrow> False
      | c # r \<Rightarrow>
          list_all is_digit k \<and> (if c = CHR ''0'' then r = [] else True) \<and>
          digits_value k < 4294967295)"

definition property_order :: "(string \<times> 'a) list \<Rightarrow> (string \<times> 'a) list" where
  "property_order kvs =
     sort_key (\<lambda>p. digits_value (fst p)) (filter (\<lambda>p. is_array_index (fst p)) kvs) @
     filter (\<lambda>p. \<not> is_array_index (fst p)) kvs"

text \<open>
  The result of \<^verbatim>\<open>JSON.stringify(v)\<close>: \<open>Inl\<close> is the TypeError it throws on a
  BigInt, \<open>Inr None\<close> is \<^verbatim>\<open>undefined\<close> (for \<^verbatim>\<open>undefined\<close>), and \<open>Inr (Some s)\<close> is
  the JSON text. Inside an array \<^verbatim>\<open>undefined\<close> prints as \<^verbatim>\<open>null\<close>; inside an
  object its property is left out. No property is callable, so no \<^verbatim>\<open>toJSON\<close> is
  called. \<open>stringify_props\<close> gives the properties that are printed, each with
  its text; the BigInt error is the only one, so it is the same whichever
  property is visited first.
\<close>

fun JSON_stringify :: "jsval \<Rightarrow> js_error + string option"
and stringify_elems :: "jsval list \<Rightarrow> js_error + string list"
and stringify_props :: "(string \<times> jsval) list \<Rightarrow> js_error + (string \<times> string) list"
where
  "JSON_stringify JUndefined = Inr None"
| "JSON_stringify JNull = Inr (Some ''null'')"
| "JSON_stringify (JBool b) = Inr (Some (if b then ''true'' else ''false''))"
| "JSON_stringify (JNum t) =
     Inr (Some (if t = ''NaN'' \<or> t = ''Infinity'' \<or> t = ''-Infinity'' then ''null'' else t))"
| "JSON_stringify (JBigInt d) = Inl (TypeError ''Do not know how to serialize a BigInt'')"
| "JSON_stringify (JStr s) = Inr (Some (quote s))"
| "JSON_stringify (JArr xs) =
     (case stringify_elems xs of
        Inl e \<Rightarrow> Inl e
      | Inr parts \<Rightarrow> Inr (Some (''['' @ join '','' parts @ '']'')))"
| "JSON_stringify (JObj kvs) =
     (case stringify_props kvs of
        Inl e \<Rightarrow> Inl e
      | Inr parts \<Rightarrow>
          Inr (Some (''{'' @ join '','' (map (\<lambda>p. quote (fst p) @ '':'' @ snd p)
                                          (property_order parts)) @ ''}'')))"
| "stringify_elems [] = Inr []"
| "stringify_elems (x # xs) =
     (case JSON_stringify x of
        Inl e \<Rightarrow> Inl e
      | Inr s \<Rightarrow>
          (case stringify_elems xs of
             Inl e \<Rightarrow> Inl e
           | Inr ss \<Rightarrow> Inr ((case s of None \<Rightarrow> ''null'' | Some t \<Rightarrow> t) # ss)))"
| "stringify_props [] = Inr []"
| "stringify_props ((k, v) # kvs) =
     (case JSON_stringify v of
        Inl e \<Rightarrow> Inl e
      | Inr s \<Rightarrow>
          (case stringify_props kvs of
             Inl e \<Rightarrow> Inl e
           | Inr ss \<Rightarrow> Inr ((case s of None \<Rightarrow> [] | Some t \<Rightarrow> [(k, t)]) @ ss)))"

text \<open>
  \<^verbatim>\<open>String(v)\<close>, the last resort of the normalizer. On an object it converts to
  a primitive: it calls the \<^verbatim>\<open>toString\<close> of the object, which is the inherited
  one and gives \<^verbatim>\<open>[object Object]\<close>, unless the object has an own property of
  that name. An own \<^verbatim>\<open>toString\<close> is not callable here; the conversion then
  turns to \<^verbatim>\<open>valueOf\<close>, which is either an own property and not callable or the
  inherited one, which returns the object, and so it throws the TypeError. On
  an array it is \<^verbatim>\<open>join\<close>, which converts every element other than \<^verbatim>\<open>undefined\<close>
  and \<^verbatim>\<open>null\<close> in the same way.
\<close>

fun js_String :: "jsval \<Rightarrow> js_error + string"
and String_elems :: "jsval list \<Rightarrow> js_error + string list"
where
  "js_String JUndefined = Inr ''undefined''"
| "js_String JNull = Inr ''null''"
| "js_String (JBool b) = Inr (if b then ''true'' else ''false'')"
| "js_String (JNum t) = Inr t"
| "js_String (JBigInt d) = Inr d"
| "js_String (JStr s) = Inr s"
| "js_String (JArr xs) =
     (case String_elems xs of Inl e \<Rightarrow> Inl e | Inr ss \<Rightarrow> Inr (join '','' ss))"
| "js_String (JObj kvs) =
     (case map_of kvs ''toString'' of
        None \<Rightarrow> Inr ''[object Object]''
      | Some v \<Rightarrow> Inl (TypeError ''Cannot convert object to primitive value''))"
| "String_elems [] = Inr []"
| "String_elems (x # xs) =
     (case (if x = JUndefined \<or> x = JNull then Inr [] else js_String x) of
        Inl e \<Rightarrow> Inl e
      | Inr s \<Rightarrow>
          (case String_elems xs of Inl e \<Rightarrow> Inl e | Inr ss \<Rightarrow> Inr (s # ss)))"

subsection \<open>JSON.parse\<close>

text \<open>
  A recursive-descent reader of the JSON grammar (ECMA-404), as \<^verbatim>\<open>JSON.parse\<close>
  applies it: \<open>None\<close> is the SyntaxError. A \<^verbatim>\<open>\uXXXX\<close> escape above \<^verbatim>\<open>00FF\<close> has no
  8-bit character; it is read as \<open>CHR 0xFF\<close>, which keeps every comparison
  with the ASCII names \<^verbatim>\<open>type\<close> and \<^verbatim>\<open>agent_end\<close> that the client makes. A repeated
  key keeps its first position and its last value.
\<close>

definition is_ws :: "char \<Rightarrow> bool" where
  "is_ws c = (c = CHR 0x20 \<or> c = CHR 0x09 \<or> c = CHR 0x0A \<or> c = CHR 0x0D)"

definition skip_ws :: "string \<Rightarrow> string" where
  "skip_ws cs = dropWhile is_ws cs"

definition hexval :: "char \<Rightarrow> nat option" where
  "hexval c =
     (let n = (of_char c :: nat) in
      if 48 \<le> n \<and> n \<le> 57 then Some (n - 48)
      else if 97 \<le> n \<and> n \<le> 102 then Some (n - 87)
      else if 65 \<le> n \<and> n \<le> 70 then Some (n - 55)
      else None)"

definition code_unit :: "nat \<Rightarrow> char" where
  "code_unit n = (if n < 256 then char_of n else CHR 0xFF)"

definition unescape :: "char \<Rightarrow> char option" where
  "unescape e =
     (if e = CHR 0x22 then Some (CHR 0x22)
      else if e = CHR 0x5C then Some (CHR 0x5C)
      else if e = CHR ''/'' then Some (CHR ''/'')
      else if e = CHR ''b'' then Some (CHR 0x08)
      else if e = CHR ''f'' then Some (CHR 0x0C)
      else if e = CHR ''n'' then Some (CHR 0x0A)
      else if e = CHR ''r'' then Some (CHR 0x0D)
      else if e = CHR ''t'' then Some (CHR 0x09)
      else None)"

definition push :: "char \<Rightarrow> (string \<times> string) option \<Rightarrow> (string \<times> string) option" where
  "push c r = map_option (\<lambda>(s, t). (c # s, t)) r"

text \<open>The characters of a string literal after its opening quote: the decoded
  string and the input after the closing quote.\<close>

fun parse_chars :: "string \<Rightarrow> (string \<times> string) option" where
  "parse_chars [] = None"
| "parse_chars (c # cs) =
     (if c = CHR 0x22 then Some ([], cs)
      else if c = CHR 0x5C then
        (case cs of
           [] \<Rightarrow> None
         | e # r \<Rightarrow>
             if e = CHR ''u'' then
               (case r of
                  h1 # h2 # h3 # h4 # r' \<Rightarrow>
                    (case (hexval h1, hexval h2, hexval h3, hexval h4) of
                       (Some a, Some b, Some c, Some d) \<Rightarrow>
                         push (code_unit (((a * 16 + b) * 16 + c) * 16 + d)) (parse_chars r')
                     | _ \<Rightarrow> None)
                | _ \<Rightarrow> None)
             else (case unescape e of None \<Rightarrow> None | Some ch \<Rightarrow> push ch (parse_chars r)))
      else if (of_char c :: nat) < 32 then None
      else push c (parse_chars cs))"

definition digits1 :: "string \<Rightarrow> (string \<times> string) option" where
  "digits1 cs = (if takeWhile is_digit cs = [] then None
                 else Some (takeWhile is_digit cs, dropWhile is_digit cs))"

definition parse_int :: "string \<Rightarrow> (string \<times> string) option" where
  "parse_int cs =
     (case cs of
        [] \<Rightarrow> None
      | d # r \<Rightarrow> if d = CHR ''0'' then Some (''0'', r) else digits1 cs)"

definition parse_frac :: "string \<Rightarrow> (string \<times> string) option" where
  "parse_frac cs =
     (case cs of
        [] \<Rightarrow> Some ([], cs)
      | d # r \<Rightarrow> if d = CHR ''.'' then map_option (\<lambda>(ds, t). (d # ds, t)) (digits1 r)
                 else Some ([], cs))"

definition parse_exp :: "string \<Rightarrow> (string \<times> string) option" where
  "parse_exp cs =
     (case cs of
        [] \<Rightarrow> Some ([], cs)
      | e # r \<Rightarrow>
          if e = CHR ''e'' \<or> e = CHR ''E'' then
            (case r of
               [] \<Rightarrow> None
             | g # r' \<Rightarrow>
                 if g = CHR ''+'' \<or> g = CHR ''-''
                 then map_option (\<lambda>(ds, t). (e # g # ds, t)) (digits1 r')
                 else map_option (\<lambda>(ds, t). (e # ds, t)) (digits1 r))
          else Some ([], cs))"

definition parse_number :: "string \<Rightarrow> (string \<times> string) option" where
  "parse_number cs =
     (let (sgn, r0) = (case cs of
                         [] \<Rightarrow> ([], cs)
                       | c # r \<Rightarrow> if c = CHR ''-'' then ([c], r) else ([], cs))
      in case parse_int r0 of
           None \<Rightarrow> None
         | Some (i, r1) \<Rightarrow>
             (case parse_frac r1 of
                None \<Rightarrow> None
              | Some (f, r2) \<Rightarrow>
                  (case parse_exp r2 of
                     None \<Rightarrow> None
                   | Some (x, r3) \<Rightarrow> Some (sgn @ i @ f @ x, r3))))"

fun obj_set :: "string \<Rightarrow> jsval \<Rightarrow> (string \<times> jsval) list \<Rightarrow> (string \<times> jsval) list" where
  "obj_set k v [] = [(k, v)]"
| "obj_set k v ((k', v') # kvs) =
     (if k' = k then (k, v) # kvs else (k', v') # obj_set k v kvs)"

definition parse_scalar :: "string \<Rightarrow> (jsval \<times> string) option" where
  "parse_scalar cs =
     (if take 4 cs = ''true'' then Some (JBool True, drop 4 cs)
      else if take 5 cs = ''false'' then Some (JBool False, drop 5 cs)
      else if take 4 cs = ''null'' then Some (JNull, drop 4 cs)
      else (case cs of
              [] \<Rightarrow> None
            | c # r \<Rightarrow>
                if c = CHR 0x22 then map_option (\<lambda>(s, t). (JStr s, t)) (parse_chars r)
                else map_option (\<lambda>(n, t). (JNum n, t)) (parse_number cs)))"

text \<open>
  The nesting of arrays and objects recurses on a counter. Every call either
  reads a character before it recurses or is made by a call that did, so a
  counter of twice the length of the input is never used up.
\<close>

fun parse_value :: "nat \<Rightarrow> string \<Rightarrow> (jsval \<times> string) option"
and parse_elems :: "nat \<Rightarrow> jsval list \<Rightarrow> string \<Rightarrow> (jsval \<times> string) option"
and parse_members :: "nat \<Rightarrow> (string \<times> jsval) list \<Rightarrow> string \<Rightarrow> (jsval \<times> string) option"
where
  "parse_value 0 cs = None"
| "parse_value (Suc n) cs =
     (case skip_ws cs of
        [] \<Rightarrow> None
      | c # r \<Rightarrow>
          if c = CHR ''['' then
            (case skip_ws r of
               [] \<Rightarrow> None
             | d # r' \<Rightarrow> if d = CHR '']'' then Some (JArr [], r') else parse_elems n [] r)
          else if c = CHR ''{'' then
            (case skip_ws r of
               [] \<Rightarrow> None
             | d # r' \<Rightarrow> if d = CHR ''}'' then Some (JObj [], r') else parse_members n [] r)
          else parse_scalar (c # r))"
| "parse_elems 0 acc cs = None"
| "parse_elems (Suc n) acc cs =
     (case parse_value n cs of
        None \<Rightarrow> None
      | Some (v, r) \<Rightarrow>
          (case skip_ws r of
             [] \<Rightarrow> None
           | d # r' \<Rightarrow>
               if d = CHR '','' then parse_elems n (acc @ [v]) r'
               else if d = CHR '']'' then Some (JArr (acc @ [v]), r')
               else None))"
| "parse_members 0 acc cs = None"
| "parse_members (Suc n) acc cs =
     (case skip_ws cs of
        [] \<Rightarrow> None
      | q # r \<Rightarrow>
          if q = CHR 0x22 then
            (case parse_chars r of
               None \<Rightarrow> None
             | Some (k, r1) \<Rightarrow>
                 (case skip_ws r1 of
                    [] \<Rightarrow> None
                  | c # r2 \<Rightarrow>
                      if c = CHR '':'' then
                        (case parse_value n r2 of
                           None \<Rightarrow> None
                         | Some (v, r3) \<Rightarrow>
                             (case skip_ws r3 of
                                [] \<Rightarrow> None
                              | d # r4 \<Rightarrow>
                                  if d = CHR '','' then parse_members n (obj_set k v acc) r4
                                  else if d = CHR ''}'' then Some (JObj (obj_set k v acc), r4)
                                  else None))
                      else None))
          else None)"

definition JSON_parse :: "string \<Rightarrow> jsval option" where
  "JSON_parse s =
     (case parse_value (2 * length s + 2) s of
        None \<Rightarrow> None
      | Some (v, r) \<Rightarrow> if skip_ws r = [] then Some v else None)"

section \<open>The prompt normalizer\<close>

text \<open>\<^verbatim>\<open>String.prototype.trim\<close> on 8-bit characters: tab, line feed, vertical tab,
  form feed, carriage return, space and no-break space are stripped.\<close>

definition is_space :: "char \<Rightarrow> bool" where
  "is_space c = (c = CHR 0x09 \<or> c = CHR 0x0A \<or> c = CHR 0x0B \<or> c = CHR 0x0C \<or>
                 c = CHR 0x0D \<or> c = CHR 0x20 \<or> c = CHR 0xA0)"

definition trim :: "string \<Rightarrow> string" where
  "trim s = rev (dropWhile is_space (rev (dropWhile is_space s)))"

record normalized =
  text' :: string
  coerced :: bool

text \<open>The callback of \<^verbatim>\<open>content.map\<close>: a part is a string, or an object with a
  string \<^verbatim>\<open>text\<close>; anything else gives the empty string.\<close>

definition part_text :: "jsval \<Rightarrow> string" where
  "part_text c =
     (case c of
        JStr s \<Rightarrow> s
      | _ \<Rightarrow> if is_object c then (case js_get c ''text'' of JStr t \<Rightarrow> t | _ \<Rightarrow> [])
             else [])"

text \<open>The block guarded by \<^verbatim>\<open>prompt && typeof prompt === "object"\<close>; \<open>None\<close> when
  it falls through.\<close>

definition message_text :: "jsval \<Rightarrow> normalized option" where
  "message_text prompt =
     (if is_object prompt then
        (let combined =
               (case js_get prompt ''content'' of
                  JArr content \<Rightarrow>
                    trim (join [CHR 0x0A] (filter (\<lambda>p. p \<noteq> []) (map part_text content)))
                | _ \<Rightarrow> [])
         in if combined \<noteq> [] then Some \<lparr>text' = combined, coerced = True\<rparr>
            else (case js_get prompt ''text'' of
                    JStr t \<Rightarrow> Some \<lparr>text' = t, coerced = True\<rparr>
                  | _ \<Rightarrow> None))
      else None)"

text \<open>\<^verbatim>\<open>normalizePiPrompt\<close>. \<open>Inl\<close> is an exception that leaves the function.
  \<^verbatim>\<open>JSON.stringify\<close> stands in a \<^verbatim>\<open>try\<close> whose \<^verbatim>\<open>catch\<close> falls through to the
  last \<^verbatim>\<open>return\<close>; the string coercion \<^verbatim>\<open>String(prompt)\<close> of that \<^verbatim>\<open>return\<close> stands
  after the \<^verbatim>\<open>try\<close>, and what it throws is not caught.\<close>

definition normalizePiPrompt :: "jsval \<Rightarrow> js_error + normalized" where
  "normalizePiPrompt prompt =
     (case prompt of
        JStr s \<Rightarrow> Inr \<lparr>text' = s, coerced = False\<rparr>
      | _ \<Rightarrow>
          (case message_text prompt of
             Some r \<Rightarrow> Inr r
           | None \<Rightarrow>
               (let fallback =
                      (if prompt = JUndefined \<or> prompt = JNull
                       then Inr \<lparr>text' = [], coerced = True\<rparr>
                       else (case js_String prompt of
                               Inl e \<Rightarrow> Inl e
                             | Inr s \<Rightarrow> Inr \<lparr>text' = s, coerced = True\<rparr>))
                in case JSON_stringify prompt of
                     Inl e \<Rightarrow> fallback
                   | Inr None \<Rightarrow> fallback
                   | Inr (Some json) \<Rightarrow>
                       if json \<noteq> [] then Inr \<lparr>text' = json, coerced = True\<rparr>
                       else fallback)))"

definition previewPrompt :: "jsval \<Rightarrow> string option" where
  "previewPrompt prompt =
     (case prompt of
        JStr s \<Rightarrow> Some (take 120 s)
      | _ \<Rightarrow>
          (case JSON_stringify prompt of
             Inl e \<Rightarrow> None
           | Inr None \<Rightarrow> None
           | Inr (Some json) \<Rightarrow> if json \<noteq> [] then Some (take 120 json) else None))"

section \<open>The runtime: child processes, timers, promises\<close>

text \<open>
  The client is event driven. Its state is the heap of \<^verbatim>\<open>TauRpcClient\<close> objects
  together with what the runtime holds for them: the child processes that were
  spawned, the timers that are armed, and what has been delivered to the
  callers. A handle (of a child process, a timer, a client object, a promise
  or an observer callback) is a number.
\<close>

type_synonym pid = nat
type_synonym tid = nat
type_synonym cid = nat
type_synonym kid = nat
type_synonym oid = nat

record TauRpcOptions =
  argv :: "string list"
  cwd :: "string option"
  timeoutMs :: int
  onEvent :: "oid option"
  prompt' :: jsval

text \<open>An optional field is an \<open>option\<close>: \<open>None\<close> when the object literal leaves
  it out. \<^verbatim>\<open>signal\<close> is optional and nullable.\<close>

record TauRpcResult =
  stdout :: string
  stderr :: string
  code :: int
  signal :: "string option option"
  killed :: "bool option"

datatype outcome = Resolved TauRpcResult | Rejected js_error

text \<open>\<^verbatim>\<open>this.pending\<close>: \<^verbatim>\<open>resolve\<close> and \<^verbatim>\<open>reject\<close> are the two callbacks of one
  promise, named by that promise.\<close>

record pending_call =
  resolve :: cid
  reject :: cid
  timer :: tid
  onEvent' :: "oid option"

record TauRpcClient =
  argv' :: "string list"
  cwd' :: "string option"
  child :: "pid option"
  rl :: "pid option"
  stderr' :: string
  buffer :: "string list"
  idleTimer :: "tid option"
  pending :: "pending_call option"

text \<open>
  A child process as Node holds it: what it was spawned with, the client whose
  handlers \<^verbatim>\<open>ensureChild\<close> attached to it, the chunks written to its stdin,
  \<^verbatim>\<open>child.killed\<close> and the signals sent, whether it has exited, and whether the
  readline interface over its stdout has been closed.
\<close>

record ChildProcess =
  spawnfile :: string
  spawnargs :: "string list"
  spawncwd :: "string option"
  listener :: kid
  stdin :: "string list"
  killed' :: bool
  signals :: "string list"
  exited :: bool
  rl_closed :: bool

text \<open>The closure that \<^verbatim>\<open>prompt\<close> hands to \<^verbatim>\<open>setTimeout\<close>, with its delay.\<close>

record timeout =
  capMs :: int
  t_reject :: cid
  t_child :: pid
  t_this :: kid

record world =
  clients :: "kid \<Rightarrow> TauRpcClient"
  procs :: "pid \<rightharpoonup> ChildProcess"
  timers :: "tid \<rightharpoonup> timeout"
  settled :: "(cid \<times> outcome) list"
  observed :: "(oid \<times> string) list"
  warnings :: "string list"
  singleton :: "(string \<times> kid) option"
  next_pid :: pid
  next_tid :: tid
  next_cid :: cid
  next_kid :: kid

definition fresh_client :: "string list \<Rightarrow> string option \<Rightarrow> TauRpcClient" where
  "fresh_client av d =
     \<lparr>argv' = av, cwd' = d, child = None, rl = None, stderr' = [], buffer = [],
      idleTimer = None, pending = None\<rparr>"

definition init_world :: world where
  "init_world =
     \<lparr>clients = (\<lambda>k. fresh_client [] None), procs = Map.empty, timers = Map.empty,
      settled = [], observed = [], warnings = [], singleton = None,
      next_pid = 0, next_tid = 0, next_cid = 0, next_kid = 0\<rparr>"

definition upd_client :: "kid \<Rightarrow> (TauRpcClient \<Rightarrow> TauRpcClient) \<Rightarrow> world \<Rightarrow> world" where
  "upd_client k f w = w\<lparr>clients := (clients w)(k := f (clients w k))\<rparr>"

definition upd_proc :: "pid \<Rightarrow> (ChildProcess \<Rightarrow> ChildProcess) \<Rightarrow> world \<Rightarrow> world" where
  "upd_proc p f w =
     (case procs w p of None \<Rightarrow> w | Some pr \<Rightarrow> w\<lparr>procs := (procs w)(p \<mapsto> f pr)\<rparr>)"

text \<open>\<^verbatim>\<open>child.kill(signal)\<close>: a process that has exited has no handle left, and
  the call does nothing; otherwise the signal is sent and \<^verbatim>\<open>child.killed\<close> set.\<close>

definition kill :: "pid \<Rightarrow> string \<Rightarrow> world \<Rightarrow> world" where
  "kill p sig w =
     upd_proc p (\<lambda>pr. if exited pr then pr
                       else pr\<lparr>killed' := True, signals := signals pr @ [sig]\<rparr>) w"

definition child_killed :: "world \<Rightarrow> pid \<Rightarrow> bool" where
  "child_killed w p = (case procs w p of None \<Rightarrow> False | Some pr \<Rightarrow> killed' pr)"

definition clearTimeout :: "tid \<Rightarrow> world \<Rightarrow> world" where
  "clearTimeout t w = w\<lparr>timers := (timers w)(t := None)\<rparr>"

text \<open>A call of \<^verbatim>\<open>resolve\<close> or \<^verbatim>\<open>reject\<close> is logged with its promise.\<close>

definition settle :: "cid \<Rightarrow> outcome \<Rightarrow> world \<Rightarrow> world" where
  "settle c r w = w\<lparr>settled := settled w @ [(c, r)]\<rparr>"

definition settled_for :: "cid \<Rightarrow> world \<Rightarrow> outcome list" where
  "settled_for c w = map snd (filter (\<lambda>e. fst e = c) (settled w))"

function show_nat :: "nat \<Rightarrow> string" where
  "show_nat n = (if n < 10 then [hexdigit n] else show_nat (n div 10) @ [hexdigit (n mod 10)])"
  by pat_completeness auto
termination
  by (relation "measure id") auto

declare show_nat.simps [simp del]

text \<open>
  The decimal numeral of an integer, which is what a template literal prints
  for a number that is an integer of magnitude up to \<open>2 ^ 53\<close>. A number of
  greater magnitude is printed from its shortest digits, and from \<open>10 ^ 21\<close> on
  in exponent form; what is stated about a message is stated within the first
  range.
\<close>

definition show_int :: "int \<Rightarrow> string" where
  "show_int i = (if i < 0 then CHR ''-'' # show_nat (nat (- i)) else show_nat (nat i))"

section \<open>TauRpcClient\<close>

definition dispose :: "kid \<Rightarrow> world \<Rightarrow> world" where
  "dispose k w =
     (let w1 = (case rl (clients w k) of
                  None \<Rightarrow> w
                | Some r \<Rightarrow> upd_proc r (\<lambda>pr. pr\<lparr>rl_closed := True\<rparr>) w);
          w2 = upd_client k (\<lambda>c. c\<lparr>rl := None\<rparr>) w1;
          w3 = (case child (clients w2 k) of
                  None \<Rightarrow> w2
                | Some p \<Rightarrow> if child_killed w2 p then w2 else kill p ''SIGKILL'' w2)
      in upd_client k (\<lambda>c. c\<lparr>child := None, buffer := [], stderr' := []\<rparr>) w3)"

text \<open>\<^verbatim>\<open>spawn\<close> throws when \<^verbatim>\<open>argv[0]\<close> is missing or empty; the exception leaves
  \<^verbatim>\<open>ensureChild\<close> before anything is assigned. The two messages are those of
  Node's argument check.\<close>

definition spawn_no_file :: string where
  "spawn_no_file =
     ''The '' @ [CHR 0x22] @ ''file'' @ [CHR 0x22] @
     '' argument must be of type string. Received undefined''"

definition spawn_empty_file :: string where
  "spawn_empty_file =
     ''The argument '' @ [CHR 0x27] @ ''file'' @ [CHR 0x27] @
     '' cannot be empty. Received '' @ [CHR 0x27, CHR 0x27]"

definition ensureChild :: "kid \<Rightarrow> world \<Rightarrow> js_error + world" where
  "ensureChild k w =
     (case child (clients w k) of
        Some p \<Rightarrow> Inr w
      | None \<Rightarrow>
          (case argv' (clients w k) of
             [] \<Rightarrow> Inl (TypeError spawn_no_file)
           | file # args \<Rightarrow>
               if file = [] then Inl (TypeError spawn_empty_file)
               else
                 (let p = next_pid w;
                      w1 = w\<lparr>procs := (procs w)(p \<mapsto>
                               \<lparr>spawnfile = file, spawnargs = args,
                                spawncwd = cwd' (clients w k), listener = k, stdin = [],
                                killed' = False, signals = [], exited = False,
                                rl_closed = False\<rparr>),
                             next_pid := Suc p\<rparr>
                  in Inr (upd_client k (\<lambda>c. c\<lparr>child := Some p, rl := Some p\<rparr>) w1))))"

text \<open>\<^verbatim>\<open>evt?.type === "agent_end"\<close> on the decoded line; a line that does not
  decode is caught and ignored.\<close>

definition is_agent_end :: "string \<Rightarrow> bool" where
  "is_agent_end line =
     (case JSON_parse line of
        None \<Rightarrow> False
      | Some evt \<Rightarrow> js_get evt ''type'' = JStr ''agent_end'')"

text \<open>\<^verbatim>\<open>this.pending?.onEvent?.(line)\<close>: the observer, when the call has one, is
  called with the line. It is taken to return without calling into the client.\<close>

definition notify :: "oid option \<Rightarrow> string \<Rightarrow> world \<Rightarrow> world" where
  "notify ob line w =
     (case ob of None \<Rightarrow> w | Some f \<Rightarrow> w\<lparr>observed := observed w @ [(f, line)]\<rparr>)"

definition handleLine :: "kid \<Rightarrow> string \<Rightarrow> world \<Rightarrow> world" where
  "handleLine k line w =
     (case pending (clients w k) of
        None \<Rightarrow> w
      | Some p \<Rightarrow>
          (let w1 = upd_client k (\<lambda>c. c\<lparr>buffer := buffer c @ [line]\<rparr>) w;
               w2 = notify (onEvent' p) line w1
           in if is_agent_end line then
                (let w3 = upd_client k (\<lambda>c. c\<lparr>pending := None\<rparr>) w2;
                     out = join [CHR 0x0A] (buffer (clients w3 k));
                     w4 = upd_client k (\<lambda>c. c\<lparr>buffer := []\<rparr>) w3;
                     w5 = clearTimeout (timer p) w4
                 in settle (resolve p)
                      (Resolved \<lparr>stdout = out, stderr = stderr' (clients w5 k), code = 0,
                                 signal = None, killed = None\<rparr>) w5)
              else w2))"

text \<open>The handler of the child's \<^verbatim>\<open>exit\<close> event, attached by \<^verbatim>\<open>ensureChild\<close>.\<close>

definition on_exit :: "kid \<Rightarrow> int option \<Rightarrow> string option \<Rightarrow> world \<Rightarrow> world" where
  "on_exit k ecode esignal w =
     (let w0 = (case idleTimer (clients w k) of None \<Rightarrow> w | Some t \<Rightarrow> clearTimeout t w);
          w4 = (case pending (clients w0 k) of
                  None \<Rightarrow> w0
                | Some p \<Rightarrow>
                    (let w1 = upd_client k (\<lambda>c. c\<lparr>pending := None\<rparr>) w0;
                         out = join [CHR 0x0A] (buffer (clients w1 k));
                         w2 = clearTimeout (timer p) w1
                     in settle (resolve p)
                          (Resolved \<lparr>stdout = out, stderr = stderr' (clients w2 k),
                                     code = (case ecode of None \<Rightarrow> 0 | Some c \<Rightarrow> c),
                                     signal = Some esignal, killed = None\<rparr>) w2))
      in dispose k w4)"

text \<open>The callback of the timer that \<^verbatim>\<open>prompt\<close> arms; a timer fires once.\<close>

definition on_timeout :: "tid \<Rightarrow> world \<Rightarrow> world" where
  "on_timeout t w =
     (case timers w t of
        None \<Rightarrow> w
      | Some tm \<Rightarrow>
          (let w0 = clearTimeout t w;
               w1 = upd_client (t_this tm) (\<lambda>c. c\<lparr>pending := None\<rparr>) w0;
               w2 = settle (t_reject tm)
                      (Rejected (Error (''tau rpc timed out after '' @ show_int (capMs tm) @ ''ms'')))
                      w1
           in kill (t_child tm) ''SIGKILL'' w2))"

text \<open>The line that \<^verbatim>\<open>prompt\<close> writes to the child's stdin.\<close>

definition envelope :: "string \<Rightarrow> string" where
  "envelope promptText =
     (case JSON_stringify (JObj [(''type'', JStr ''prompt''), (''message'', JStr promptText)]) of
        Inr (Some s) \<Rightarrow> s
      | _ \<Rightarrow> ''undefined'') @ [CHR 0x0A]"

text \<open>
  \<^verbatim>\<open>prompt\<close> is an async function with one \<^verbatim>\<open>await\<close> between the write and the
  second promise. \<open>prompt_write\<close> is the part before the \<^verbatim>\<open>await\<close>: \<open>Inl\<close> is the
  exception that rejects the call at once, \<open>Inr\<close> the child that was captured.
  \<open>prompt_wait\<close> is the executor of the second promise, which creates the
  promise of the call, arms the timer and fills \<^verbatim>\<open>this.pending\<close>.
\<close>

text \<open>\<^verbatim>\<open>console.warn\<close>.\<close>

definition warn :: "string \<Rightarrow> world \<Rightarrow> world" where
  "warn msg w = w\<lparr>warnings := warnings w @ [msg]\<rparr>"

definition prompt_write :: "kid \<Rightarrow> jsval \<Rightarrow> world \<Rightarrow> (js_error + pid) \<times> world" where
  "prompt_write k prm w =
     (case normalizePiPrompt prm of
        Inl e \<Rightarrow> (Inl e, w)
      | Inr n \<Rightarrow>
          (let preview = (if coerced n then previewPrompt prm else None);
               suffix = (case preview of
                           None \<Rightarrow> []
                         | Some pv \<Rightarrow> if pv = [] then [] else '' (preview: '' @ pv @ '')'');
               w1 = (if coerced n
                     then warn (''tau rpc: coerced non-string prompt to text'' @ suffix) w
                     else w)
           in case ensureChild k w1 of
                Inl e \<Rightarrow> (Inl e, w1)
              | Inr w2 \<Rightarrow>
                  (case pending (clients w2 k) of
                     Some p \<Rightarrow> (Inl (Error ''tau rpc already handling a request''), w2)
                   | None \<Rightarrow>
                       (case child (clients w2 k) of
                          None \<Rightarrow> (Inl (Error ''tau rpc child not initialized''), w2)
                        | Some c \<Rightarrow>
                            (Inr c, upd_proc c (\<lambda>pr. pr\<lparr>stdin := stdin pr @ [envelope (text' n)]\<rparr>)
                                      w2)))))"

definition prompt_wait :: "kid \<Rightarrow> pid \<Rightarrow> int \<Rightarrow> oid option \<Rightarrow> world \<Rightarrow> cid \<times> world" where
  "prompt_wait k c tmo onEv w =
     (let cap = min tmo (5 * 60 * 1000);
          pr = next_cid w;
          t = next_tid w;
          w1 = w\<lparr>timers := (timers w)(t \<mapsto> \<lparr>capMs = cap, t_reject = pr, t_child = c, t_this = k\<rparr>),
                 next_tid := Suc t, next_cid := Suc pr\<rparr>
      in (pr, upd_client k
                (\<lambda>cl. cl\<lparr>pending := Some \<lparr>resolve = pr, reject = pr, timer = t, onEvent' = onEv\<rparr>\<rparr>)
                w1))"

text \<open>How the awaited write ends is the runtime's answer: the chunk is flushed
  (or the stream drains), or the write fails and the call is rejected.\<close>

datatype write_result = Flushed | WriteError js_error

text \<open>\<^verbatim>\<open>prompt\<close> when no other event is handled during the \<^verbatim>\<open>await\<close>: \<open>Inl\<close> is
  the rejection at once, \<open>Inr c\<close> the promise that is now pending.\<close>

definition prompt :: "kid \<Rightarrow> jsval \<Rightarrow> int \<Rightarrow> oid option \<Rightarrow> write_result \<Rightarrow> world
    \<Rightarrow> (js_error + cid) \<times> world" where
  "prompt k prm tmo onEv wr w =
     (case prompt_write k prm w of
        (Inl e, w1) \<Rightarrow> (Inl e, w1)
      | (Inr c, w1) \<Rightarrow>
          (case wr of
             WriteError e \<Rightarrow> (Inl e, w1)
           | Flushed \<Rightarrow> (let (pr, w2) = prompt_wait k c tmo onEv w1 in (Inr pr, w2))))"

section \<open>The registry\<close>

definition rpc_key :: "TauRpcOptions \<Rightarrow> string" where
  "rpc_key opts = (case cwd opts of None \<Rightarrow> [] | Some d \<Rightarrow> d) @ ''|'' @ join '' '' (argv opts)"

definition new_client :: "string \<Rightarrow> TauRpcOptions \<Rightarrow> world \<Rightarrow> kid \<times> world" where
  "new_client key opts w =
     (let k = next_kid w
      in (k, w\<lparr>clients := (clients w)(k := fresh_client (argv opts) (cwd opts)),
               next_kid := Suc k, singleton := Some (key, k)\<rparr>))"

text \<open>The first statements of \<^verbatim>\<open>runPiRpc\<close>: the client that serves the call.\<close>

definition acquire :: "TauRpcOptions \<Rightarrow> world \<Rightarrow> kid \<times> world" where
  "acquire opts w =
     (let key = rpc_key opts
      in case singleton w of
           None \<Rightarrow> new_client key opts w
         | Some (key', k) \<Rightarrow>
             if key' = key then (k, w) else new_client key opts (dispose k w))"

definition runPiRpc :: "TauRpcOptions \<Rightarrow> write_result \<Rightarrow> world \<Rightarrow> (js_error + cid) \<times> world" where
  "runPiRpc opts wr w =
     (let (k, w1) = acquire opts w
      in prompt k (prompt' opts) (timeoutMs opts) (onEvent opts) wr w1)"

definition resetPiRpc :: "world \<Rightarrow> world" where
  "resetPiRpc w =
     (case singleton w of
        None \<Rightarrow> w\<lparr>singleton := None\<rparr>
      | Some (key, k) \<Rightarrow> (dispose k w)\<lparr>singleton := None\<rparr>)"

section \<open>Events\<close>

text \<open>
  What the runtime delivers to the handlers: a line read from a child's stdout
  (while its readline interface is open), a chunk of its stderr, its exit
  (once), and the expiry of a timer (while it is armed).
\<close>

datatype event =
    Line pid string
  | Data pid string
  | Exit pid "int option" "string option"
  | Timeout tid

fun step :: "event \<Rightarrow> world \<Rightarrow> world" where
  "step (Line p l) w =
     (case procs w p of
        None \<Rightarrow> w
      | Some pr \<Rightarrow> if rl_closed pr then w else handleLine (listener pr) l w)"
| "step (Data p d) w =
     (case procs w p of
        None \<Rightarrow> w
      | Some pr \<Rightarrow> upd_client (listener pr) (\<lambda>c. c\<lparr>stderr' := stderr' c @ d\<rparr>) w)"
| "step (Exit p ecode esignal) w =
     (case procs w p of
        None \<Rightarrow> w
      | Some pr \<Rightarrow>
          if exited pr then w
          else on_exit (listener pr) ecode esignal (upd_proc p (\<lambda>q. q\<lparr>exited := True\<rparr>) w))"
| "step (Timeout t) w = on_timeout t w"

fun run :: "event list \<Rightarrow> world \<Rightarrow> world" where
  "run [] w = w"
| "run (e # es) w = run es (step e w)"

section \<open>Well-formed worlds\<close>

text \<open>
  What every world that the client can reach satisfies. \<^verbatim>\<open>idleTimer\<close> is never
  assigned. The timer named by a pending call is armed, rejects the promise
  that the call resolves, and belongs to the client that holds the call. An
  armed timer is one that was handed out, its promise has not been settled,
  and no two armed timers reject the same promise. No promise has been
  settled twice, and every settled promise is one that was created.
\<close>

definition consistent :: "world \<Rightarrow> bool" where
  "consistent w =
     ((\<forall>k. idleTimer (clients w k) = None) \<and>
      (\<forall>k p. pending (clients w k) = Some p \<longrightarrow>
         (\<exists>tm. timers w (timer p) = Some tm \<and> t_reject tm = resolve p \<and> t_this tm = k)) \<and>
      (\<forall>t tm. timers w t = Some tm \<longrightarrow>
         t < next_tid w \<and> t_reject tm < next_cid w \<and> settled_for (t_reject tm) w = []) \<and>
      (\<forall>t t' tm tm'. timers w t = Some tm \<and> timers w t' = Some tm' \<and> t_reject tm = t_reject tm'
         \<longrightarrow> t = t') \<and>
      (\<forall>c. length (settled_for c w) \<le> 1) \<and>
      (\<forall>c. settled_for c w \<noteq> [] \<longrightarrow> c < next_cid w))"

text \<open>
  What can happen to the registry: the runtime delivers an event, a caller
  calls \<^verbatim>\<open>runPiRpc\<close> (here with no event handled while the write is awaited),
  or \<^verbatim>\<open>resetPiRpc\<close>.
\<close>

datatype action = Deliver event | Call TauRpcOptions write_result | Reset

fun perform :: "action \<Rightarrow> world \<Rightarrow> world" where
  "perform (Deliver e) w = step e w"
| "perform (Call opts wr) w = snd (runPiRpc opts wr w)"
| "perform Reset w = resetPiRpc w"

fun exec :: "action list \<Rightarrow> world \<Rightarrow> world" where
  "exec [] w = w"
| "exec (a # as) w = exec as (perform a w)"

section \<open>An example run\<close>

text \<open>A first call on the empty registry, asking for a timeout of ten minutes,
  whose write has been flushed: the call is pending on client 0, which owns
  child process 0 and timer 0.\<close>

definition example_opts :: TauRpcOptions where
  "example_opts =
     \<lparr>argv = [''pi'', ''--mode'', ''rpc''], cwd = None, timeoutMs = 600000, onEvent = None,
      prompt' = JStr ''hi''\<rparr>"

definition example_pending :: world where
  "example_pending = snd (runPiRpc example_opts Flushed init_world)"









text \<open>
  Two calls of \<^verbatim>\<open>runPiRpc\<close> with the same argument vector, made one after the
  other in one turn of the event loop. Each runs up to the \<^verbatim>\<open>await\<close> of its
  write; the executors of the two promises run when the writes have been
  flushed, in the order of the writes.
\<close>

definition second_opts :: TauRpcOptions where
  "second_opts = example_opts\<lparr>prompt' := JStr ''again''\<rparr>"

definition first_write :: world where
  "first_write = snd (prompt_write 0 (JStr ''hi'') (snd (acquire example_opts init_world)))"

definition second_write :: world where
  "second_write = snd (prompt_write 0 (JStr ''again'') (snd (acquire second_opts first_write)))"

definition overlapping_calls :: world where
  "overlapping_calls =
     snd (prompt_wait 0 0 600000 None (snd (prompt_wait 0 0 600000 None second_write)))"

text \<open>The first call alone, whose child exits with code 1 while the write is
  awaited; the write is then reported as flushed.\<close>

definition exit_during_write :: world where
  "exit_during_write = snd (prompt_wait 0 0 600000 None (step (Exit 0 (Some 1) None) first_write))"

text \<open>Options whose argument vector differs from that of \<open>example_opts\<close> and whose
  key is the same.\<close>

definition colliding_opts :: TauRpcOptions where
  "colliding_opts =
     \<lparr>argv = [''pi'', ''--mode rpc''], cwd = None, timeoutMs = 600000, onEvent = None,
      prompt' = JStr ''hi''\<rparr>"

text \<open>A settlement that is a rejection, or a Result without the \<^verbatim>\<open>killed\<close> field.\<close>

definition no_killed :: "cid \<times> outcome \<Rightarrow> bool" where
  "no_killed e = (case snd e of Resolved r \<Rightarrow> killed r = None | Rejected x \<Rightarrow> True)"



section \<open>Properties of the normalizer\<close>

text \<open>
  C7 says that the normalizer never fails and that \<^verbatim>\<open>null\<close> and \<^verbatim>\<open>undefined\<close>
  both give the empty text with \<^verbatim>\<open>coerced = true\<close>. The code gives that for
  \<^verbatim>\<open>undefined\<close>. For \<^verbatim>\<open>null\<close> it gives the text \<^verbatim>\<open>null\<close>: \<^verbatim>\<open>JSON.stringify(null)\<close>
  is that non-empty text, which is returned inside the \<^verbatim>\<open>try\<close>, so the last
  \<^verbatim>\<open>return\<close>, whose \<^verbatim>\<open>prompt == null ? ""\<close> is written for this input, is not
  reached by it. And the \<^verbatim>\<open>String(prompt)\<close> of the last \<^verbatim>\<open>return\<close> stands after the
  \<^verbatim>\<open>try\<close>: on the object \<^verbatim>\<open>{x: 1n, toString: null}\<close>, which \<^verbatim>\<open>JSON.stringify\<close>
  rejects for its BigInt, it throws a TypeError that leaves the normalizer.
\<close>

theorem C7_normalize_null:
  "normalizePiPrompt JNull = Inr \<lparr>text' = ''null'', coerced = True\<rparr> \<and>
   normalizePiPrompt JUndefined = Inr \<lparr>text' = [], coerced = True\<rparr> \<and>
   normalizePiPrompt (JObj [(''x'', JBigInt ''1''), (''toString'', JNull)]) =
     Inl (TypeError ''Cannot convert object to primitive value'')"
  by (simp add: normalizePiPrompt_def message_text_def)

section \<open>How the operations change the world\<close>

lemma upd_client_simps [simp]:
  "clients (upd_client k f w) = (clients w)(k := f (clients w k))"
  "procs (upd_client k f w) = procs w"
  "timers (upd_client k f w) = timers w"
  "settled (upd_client k f w) = settled w"
  "observed (upd_client k f w) = observed w"
  "warnings (upd_client k f w) = warnings w"
  "singleton (upd_client k f w) = singleton w"
  "next_pid (upd_client k f w) = next_pid w"
  "next_tid (upd_client k f w) = next_tid w"
  "next_cid (upd_client k f w) = next_cid w"
  "next_kid (upd_client k f w) = next_kid w"
  by (simp_all add: upd_client_def)

lemma upd_proc_simps [simp]:
  "clients (upd_proc p f w) = clients w"
  "procs (upd_proc p f w) = (case procs w p of None \<Rightarrow> procs w | Some pr \<Rightarrow> (procs w)(p \<mapsto> f pr))"
  "timers (upd_proc p f w) = timers w"
  "settled (upd_proc p f w) = settled w"
  "observed (upd_proc p f w) = observed w"
  "warnings (upd_proc p f w) = warnings w"
  "singleton (upd_proc p f w) = singleton w"
  "next_pid (upd_proc p f w) = next_pid w"
  "next_tid (upd_proc p f w) = next_tid w"
  "next_cid (upd_proc p f w) = next_cid w"
  "next_kid (upd_proc p f w) = next_kid w"
  by (simp_all add: upd_proc_def split: option.splits)

lemma kill_simps [simp]:
  "clients (kill p s w) = clients w"
  "timers (kill p s w) = timers w"
  "settled (kill p s w) = settled w"
  "observed (kill p s w) = observed w"
  "warnings (kill p s w) = warnings w"
  "singleton (kill p s w) = singleton w"
  "next_pid (kill p s w) = next_pid w"
  "next_tid (kill p s w) = next_tid w"
  "next_cid (kill p s w) = next_cid w"
  "next_kid (kill p s w) = next_kid w"
  by (simp_all add: kill_def)

lemma clearTimeout_simps [simp]:
  "clients (clearTimeout t w) = clients w"
  "procs (clearTimeout t w) = procs w"
  "timers (clearTimeout t w) = (timers w)(t := None)"
  "settled (clearTimeout t w) = settled w"
  "observed (clearTimeout t w) = observed w"
  "warnings (clearTimeout t w) = warnings w"
  "singleton (clearTimeout t w) = singleton w"
  "next_pid (clearTimeout t w) = next_pid w"
  "next_tid (clearTimeout t w) = next_tid w"
  "next_cid (clearTimeout t w) = next_cid w"
  "next_kid (clearTimeout t w) = next_kid w"
  by (simp_all add: clearTimeout_def)

lemma settle_simps [simp]:
  "clients (settle c r w) = clients w"
  "procs (settle c r w) = procs w"
  "timers (settle c r w) = timers w"
  "settled (settle c r w) = settled w @ [(c, r)]"
  "observed (settle c r w) = observed w"
  "warnings (settle c r w) = warnings w"
  "singleton (settle c r w) = singleton w"
  "next_pid (settle c r w) = next_pid w"
  "next_tid (settle c r w) = next_tid w"
  "next_cid (settle c r w) = next_cid w"
  "next_kid (settle c r w) = next_kid w"
  by (simp_all add: settle_def)

lemma notify_simps [simp]:
  "clients (notify ob l w) = clients w"
  "procs (notify ob l w) = procs w"
  "timers (notify ob l w) = timers w"
  "settled (notify ob l w) = settled w"
  "observed (notify ob l w) = observed w @ (case ob of None \<Rightarrow> [] | Some f \<Rightarrow> [(f, l)])"
  "warnings (notify ob l w) = warnings w"
  "singleton (notify ob l w) = singleton w"
  "next_pid (notify ob l w) = next_pid w"
  "next_tid (notify ob l w) = next_tid w"
  "next_cid (notify ob l w) = next_cid w"
  "next_kid (notify ob l w) = next_kid w"
  by (simp_all add: notify_def split: option.splits)

lemma warn_simps [simp]:
  "clients (warn m w) = clients w"
  "procs (warn m w) = procs w"
  "timers (warn m w) = timers w"
  "settled (warn m w) = settled w"
  "observed (warn m w) = observed w"
  "warnings (warn m w) = warnings w @ [m]"
  "singleton (warn m w) = singleton w"
  "next_pid (warn m w) = next_pid w"
  "next_tid (warn m w) = next_tid w"
  "next_cid (warn m w) = next_cid w"
  "next_kid (warn m w) = next_kid w"
  by (simp_all add: warn_def)

lemma dispose_simps [simp]:
  "clients (dispose k w) =
     (clients w)(k := (clients w k)\<lparr>rl := None, child := None, buffer := [], stderr' := []\<rparr>)"
  "timers (dispose k w) = timers w"
  "settled (dispose k w) = settled w"
  "observed (dispose k w) = observed w"
  "warnings (dispose k w) = warnings w"
  "singleton (dispose k w) = singleton w"
  "next_pid (dispose k w) = next_pid w"
  "next_tid (dispose k w) = next_tid w"
  "next_cid (dispose k w) = next_cid w"
  "next_kid (dispose k w) = next_kid w"
  by (auto simp add: dispose_def Let_def fun_eq_iff split: option.splits)

section \<open>Every operation keeps the world well-formed\<close>

lemma settled_for_append [simp]:
  "settled_for c (w\<lparr>settled := settled w @ [(c', r)]\<rparr>) =
     (if c' = c then settled_for c w @ [r] else settled_for c w)"
  by (simp add: settled_for_def)

lemma settled_for_cong:
  "settled w' = settled w \<Longrightarrow> settled_for c w' = settled_for c w"
  by (simp add: settled_for_def)

lemma settled_for_snoc:
  "settled w' = settled w @ [(c', r)] \<Longrightarrow>
     settled_for c w' = (if c' = c then settled_for c w @ [r] else settled_for c w)"
  by (simp add: settled_for_def)

lemma consistent_frame:
  assumes "consistent w"
    and "\<And>k. pending (clients w' k) = pending (clients w k)"
    and "\<And>k. idleTimer (clients w' k) = idleTimer (clients w k)"
    and "timers w' = timers w" and "settled w' = settled w"
    and "next_tid w' = next_tid w" and "next_cid w' = next_cid w"
  shows "consistent w'"
  using assms unfolding consistent_def
  by (simp add: settled_for_cong [of w' w])

lemma consistent_finish:
  assumes c: "consistent w" and tm: "timers w t = Some tm"
    and P: "\<And>k'. pending (clients w' k') = (if k' = t_this tm then None else pending (clients w k'))"
    and I: "\<And>k. idleTimer (clients w' k) = idleTimer (clients w k)"
    and T: "timers w' = (timers w)(t := None)"
    and S: "settled w' = settled w @ [(t_reject tm, r)]"
    and N: "next_tid w' = next_tid w" "next_cid w' = next_cid w"
  shows "consistent w'"
proof -
  have sf: "\<And>c. settled_for c w' = (if t_reject tm = c then settled_for c w @ [r] else settled_for c w)"
    using S by (rule settled_for_snoc)
  have un: "\<And>t' tm'. timers w t' = Some tm' \<Longrightarrow> t_reject tm' = t_reject tm \<Longrightarrow> t' = t"
    using c tm unfolding consistent_def by metis
  have e: "settled_for (t_reject tm) w = []"
    using c tm unfolding consistent_def by metis
  have lt: "t_reject tm < next_cid w"
    using c tm unfolding consistent_def by metis
  have 1: "\<forall>k. idleTimer (clients w' k) = None"
    using c I unfolding consistent_def by simp
  have 2: "\<forall>k' q. pending (clients w' k') = Some q \<longrightarrow>
         (\<exists>tm. timers w' (timer q) = Some tm \<and> t_reject tm = resolve q \<and> t_this tm = k')"
  proof (intro allI impI)
    fix k' q assume q: "pending (clients w' k') = Some q"
    then have kk: "k' \<noteq> t_this tm" and q': "pending (clients w k') = Some q"
      using P by (auto split: if_splits)
    from c q' obtain tq where tq: "timers w (timer q) = Some tq" "t_reject tq = resolve q" "t_this tq = k'"
      unfolding consistent_def by blast
    have "timer q \<noteq> t" using tq tm kk by auto
    then show "\<exists>tm. timers w' (timer q) = Some tm \<and> t_reject tm = resolve q \<and> t_this tm = k'"
      using tq T by simp
  qed
  have 3: "\<forall>t tm. timers w' t = Some tm \<longrightarrow>
         t < next_tid w' \<and> t_reject tm < next_cid w' \<and> settled_for (t_reject tm) w' = []"
  proof (intro allI impI)
    fix t' tm' assume a: "timers w' t' = Some tm'"
    then have tt: "t' \<noteq> t" and a': "timers w t' = Some tm'" using T by (auto split: if_splits)
    have "t_reject tm' \<noteq> t_reject tm" using un a' tt by blast
    then show "t' < next_tid w' \<and> t_reject tm' < next_cid w' \<and> settled_for (t_reject tm') w' = []"
      using c a' N sf unfolding consistent_def by auto
  qed
  have 4: "\<forall>t t' tm tm'. timers w' t = Some tm \<and> timers w' t' = Some tm' \<and> t_reject tm = t_reject tm'
         \<longrightarrow> t = t'"
    using c T unfolding consistent_def by (auto split: if_splits)
  have 5: "\<forall>c. length (settled_for c w') \<le> 1"
    using c e sf unfolding consistent_def by auto
  have 6: "\<forall>c. settled_for c w' \<noteq> [] \<longrightarrow> c < next_cid w'"
    using c sf N lt unfolding consistent_def by (auto split: if_splits)
  show ?thesis
    unfolding consistent_def using 1 2 3 4 5 6 by blast
qed

lemma consistent_pendingD:
  "consistent w \<Longrightarrow> pending (clients w k) = Some p \<Longrightarrow>
     \<exists>tm. timers w (timer p) = Some tm \<and> t_reject tm = resolve p \<and> t_this tm = k"
  unfolding consistent_def by blast

lemma consistent_drop:
  assumes c: "consistent w"
    and P: "\<And>k'. pending (clients w' k') = (if k' = k then None else pending (clients w k'))"
    and I: "\<And>k'. idleTimer (clients w' k') = (if k' = k then None else idleTimer (clients w k'))"
    and T: "timers w' = timers w" and S: "settled w' = settled w"
    and N: "next_tid w' = next_tid w" "next_cid w' = next_cid w"
  shows "consistent w'"
  using c unfolding consistent_def
  by (simp add: P I T S N settled_for_cong [OF S])

lemma consistent_arm:
  assumes c: "consistent w"
    and P: "\<And>k'. pending (clients w' k') =
               (if k' = k then Some \<lparr>resolve = next_cid w, reject = next_cid w, timer = next_tid w,
                                     onEvent' = ev\<rparr>
                else pending (clients w k'))"
    and I: "\<And>k'. idleTimer (clients w' k') = idleTimer (clients w k')"
    and T: "timers w' = (timers w)(next_tid w \<mapsto>
               \<lparr>capMs = cap, t_reject = next_cid w, t_child = ch, t_this = k\<rparr>)"
    and S: "settled w' = settled w"
    and N: "next_tid w' = Suc (next_tid w)" "next_cid w' = Suc (next_cid w)"
  shows "consistent w'"
proof -
  have sf: "\<And>c. settled_for c w' = settled_for c w"
    using S by (rule settled_for_cong)
  have fr: "timers w (next_tid w) = None"
    using c unfolding consistent_def by (metis less_irrefl not_Some_eq)
  have fc: "settled_for (next_cid w) w = []"
    using c unfolding consistent_def by (metis less_irrefl)
  have ft: "\<And>t tm. timers w t = Some tm \<Longrightarrow> t \<noteq> next_tid w \<and> t_reject tm \<noteq> next_cid w"
    using c unfolding consistent_def by (metis less_irrefl)
  have 1: "\<forall>k. idleTimer (clients w' k) = None"
    using c I unfolding consistent_def by simp
  have 2: "\<forall>k' q. pending (clients w' k') = Some q \<longrightarrow>
         (\<exists>tm. timers w' (timer q) = Some tm \<and> t_reject tm = resolve q \<and> t_this tm = k')"
  proof (intro allI impI)
    fix k' q assume q: "pending (clients w' k') = Some q"
    show "\<exists>tm. timers w' (timer q) = Some tm \<and> t_reject tm = resolve q \<and> t_this tm = k'"
    proof (cases "k' = k")
      case True
      then show ?thesis using q P T by auto
    next
      case False
      then have q': "pending (clients w k') = Some q" using q P by simp
      from c q' obtain tq where tq: "timers w (timer q) = Some tq" "t_reject tq = resolve q" "t_this tq = k'"
        unfolding consistent_def by blast
      have "timer q \<noteq> next_tid w" using tq ft by blast
      then show ?thesis using tq T by simp
    qed
  qed
  have 3: "\<forall>t tm. timers w' t = Some tm \<longrightarrow>
         t < next_tid w' \<and> t_reject tm < next_cid w' \<and> settled_for (t_reject tm) w' = []"
  proof (intro allI impI)
    fix t' tm' assume a: "timers w' t' = Some tm'"
    show "t' < next_tid w' \<and> t_reject tm' < next_cid w' \<and> settled_for (t_reject tm') w' = []"
    proof (cases "t' = next_tid w")
      case True
      then show ?thesis using a T N sf fc by auto
    next
      case False
      then have "timers w t' = Some tm'" using a T by simp
      then have "t' < next_tid w \<and> t_reject tm' < next_cid w \<and> settled_for (t_reject tm') w = []"
        using c unfolding consistent_def by blast
      then show ?thesis using N sf by simp
    qed
  qed
  have 4: "\<forall>t t' tm tm'. timers w' t = Some tm \<and> timers w' t' = Some tm' \<and> t_reject tm = t_reject tm'
         \<longrightarrow> t = t'"
  proof (intro allI impI)
    fix t t' tm1 tm2
    assume a: "timers w' t = Some tm1 \<and> timers w' t' = Some tm2 \<and> t_reject tm1 = t_reject tm2"
    show "t = t'"
    proof (cases "t = next_tid w"; cases "t' = next_tid w")
      assume "t = next_tid w" "t' = next_tid w" then show ?thesis by simp
    next
      assume "t = next_tid w" "t' \<noteq> next_tid w"
      then show ?thesis using a T ft [of t' tm2] by auto
    next
      assume "t \<noteq> next_tid w" "t' = next_tid w"
      then show ?thesis using a T ft [of t tm1] by auto
    next
      assume "t \<noteq> next_tid w" "t' \<noteq> next_tid w"
      then show ?thesis using a T c unfolding consistent_def by auto
    qed
  qed
  have 5: "\<forall>c. length (settled_for c w') \<le> 1"
    using c sf unfolding consistent_def by auto
  have 6: "\<forall>c. settled_for c w' \<noteq> [] \<longrightarrow> c < next_cid w'"
    using c sf N unfolding consistent_def by (auto simp: less_Suc_eq)
  show ?thesis
    unfolding consistent_def using 1 2 3 4 5 6 by blast
qed

lemma consistent_init: "consistent init_world"
  by (simp add: consistent_def init_world_def fresh_client_def settled_for_def)

lemma consistent_dispose: "consistent w \<Longrightarrow> consistent (dispose k w)"
  by (erule consistent_frame) simp_all

lemma consistent_idle: "consistent w \<Longrightarrow> idleTimer (clients w k) = None"
  by (simp add: consistent_def)

lemma consistent_handleLine: "consistent w \<Longrightarrow> consistent (handleLine k l w)"
proof (cases "pending (clients w k)")
  case None
  assume "consistent w"
  then show ?thesis using None by (simp add: handleLine_def)
next
  case (Some p)
  assume c: "consistent w"
  from consistent_pendingD [OF c Some] obtain tm
    where tm: "timers w (timer p) = Some tm" "t_reject tm = resolve p" "t_this tm = k" by blast
  show ?thesis
  proof (cases "is_agent_end l")
    case True
    show ?thesis
      by (rule consistent_finish [OF c tm(1)])
         (simp_all add: handleLine_def Some True tm Let_def)
  next
    case False
    show ?thesis
      by (rule consistent_frame [OF c])
         (simp_all add: handleLine_def Some False Let_def)
  qed
qed

lemma consistent_on_exit: "consistent w \<Longrightarrow> consistent (on_exit k ec es w)"
proof (cases "pending (clients w k)")
  case None
  assume c: "consistent w"
  then show ?thesis using None consistent_idle [OF c, of k]
    by (simp add: on_exit_def consistent_dispose)
next
  case (Some p)
  assume c: "consistent w"
  from consistent_pendingD [OF c Some] obtain tm
    where tm: "timers w (timer p) = Some tm" "t_reject tm = resolve p" "t_this tm = k" by blast
  have "consistent (settle (resolve p)
          (Resolved \<lparr>stdout = join [CHR 0x0A] (buffer (clients w k)), stderr = stderr' (clients w k),
                     code = (case ec of None \<Rightarrow> 0 | Some c \<Rightarrow> c), signal = Some es, killed = None\<rparr>)
          (clearTimeout (timer p) (upd_client k (\<lambda>c. c\<lparr>pending := None\<rparr>) w)))"
    by (rule consistent_finish [OF c tm(1)]) (simp_all add: tm)
  then show ?thesis using Some consistent_idle [OF c, of k]
    by (simp add: on_exit_def Let_def consistent_dispose)
qed

lemma consistent_on_timeout: "consistent w \<Longrightarrow> consistent (on_timeout t w)"
proof (cases "timers w t")
  case None
  assume "consistent w"
  then show ?thesis using None by (simp add: on_timeout_def)
next
  case (Some tm)
  assume c: "consistent w"
  show ?thesis
    by (rule consistent_finish [OF c Some]) (simp_all add: on_timeout_def Some Let_def)
qed

lemma consistent_step: "consistent w \<Longrightarrow> consistent (step e w)"
proof (cases e)
  case (Line p l)
  assume "consistent w"
  then show ?thesis using Line by (simp add: consistent_handleLine split: option.splits)
next
  case (Data p d)
  assume c: "consistent w"
  show ?thesis
  proof (cases "procs w p")
    case None
    then show ?thesis using c Data by simp
  next
    case (Some pr)
    show ?thesis unfolding Data
      by (rule consistent_frame [OF c]) (simp_all add: Some)
  qed
next
  case (Exit p ec es)
  assume c: "consistent w"
  show ?thesis
  proof (cases "procs w p")
    case None
    then show ?thesis using c Exit by simp
  next
    case (Some pr)
    have "consistent (upd_proc p (\<lambda>q. q\<lparr>exited := True\<rparr>) w)"
      by (rule consistent_frame [OF c]) simp_all
    then show ?thesis using c Exit Some by (simp add: consistent_on_exit)
  qed
next
  case (Timeout t)
  assume "consistent w"
  then show ?thesis using Timeout by (simp add: consistent_on_timeout)
qed

lemma consistent_run: "consistent w \<Longrightarrow> consistent (run es w)"
  by (induction es arbitrary: w) (simp_all add: consistent_step)

lemma ensureChild_frame:
  assumes "ensureChild k w = Inr w'"
  shows "pending (clients w' k') = pending (clients w k')"
    and "idleTimer (clients w' k') = idleTimer (clients w k')"
    and "stderr' (clients w' k') = stderr' (clients w k')"
    and "buffer (clients w' k') = buffer (clients w k')"
    and "timers w' = timers w" and "settled w' = settled w" and "observed w' = observed w"
    and "next_tid w' = next_tid w" and "next_cid w' = next_cid w" and "next_kid w' = next_kid w"
    and "singleton w' = singleton w" and "warnings w' = warnings w"
  using assms
  by (auto simp: ensureChild_def Let_def split: option.splits list.splits if_splits)

lemma prompt_write_unfold:
  assumes "normalizePiPrompt prm = Inr n"
  shows "prompt_write k prm w =
     (case ensureChild k
             (if coerced n
              then warn (''tau rpc: coerced non-string prompt to text'' @
                         (case previewPrompt prm of
                            None \<Rightarrow> []
                          | Some pv \<Rightarrow> if pv = [] then [] else '' (preview: '' @ pv @ '')'')) w
              else w) of
        Inl e \<Rightarrow>
          (Inl e,
           if coerced n
           then warn (''tau rpc: coerced non-string prompt to text'' @
                      (case previewPrompt prm of
                         None \<Rightarrow> []
                       | Some pv \<Rightarrow> if pv = [] then [] else '' (preview: '' @ pv @ '')'')) w
           else w)
      | Inr w2 \<Rightarrow>
          (case pending (clients w2 k) of
             Some p \<Rightarrow> (Inl (Error ''tau rpc already handling a request''), w2)
           | None \<Rightarrow>
               (case child (clients w2 k) of
                  None \<Rightarrow> (Inl (Error ''tau rpc child not initialized''), w2)
                | Some c \<Rightarrow>
                    (Inr c, upd_proc c (\<lambda>pr. pr\<lparr>stdin := stdin pr @ [envelope (text' n)]\<rparr>)
                              w2))))"
  using assms by (simp add: prompt_write_def Let_def)

lemma prompt_write_frame_all:
  shows "pending (clients (snd (prompt_write k prm w)) k') = pending (clients w k') \<and>
         idleTimer (clients (snd (prompt_write k prm w)) k') = idleTimer (clients w k') \<and>
         stderr' (clients (snd (prompt_write k prm w)) k') = stderr' (clients w k') \<and>
         buffer (clients (snd (prompt_write k prm w)) k') = buffer (clients w k') \<and>
         timers (snd (prompt_write k prm w)) = timers w \<and>
         settled (snd (prompt_write k prm w)) = settled w \<and>
         observed (snd (prompt_write k prm w)) = observed w \<and>
         next_tid (snd (prompt_write k prm w)) = next_tid w \<and>
         next_cid (snd (prompt_write k prm w)) = next_cid w \<and>
         next_kid (snd (prompt_write k prm w)) = next_kid w \<and>
         singleton (snd (prompt_write k prm w)) = singleton w"
proof (cases "normalizePiPrompt prm")
  case (Inl e)
  then show ?thesis by (simp add: prompt_write_def)
next
  case n: (Inr n)
  define w1 where "w1 =
    (if coerced n
     then warn (''tau rpc: coerced non-string prompt to text'' @
                (case previewPrompt prm of
                   None \<Rightarrow> []
                 | Some pv \<Rightarrow> if pv = [] then [] else '' (preview: '' @ pv @ '')'')) w
     else w)"
  have pw: "prompt_write k prm w =
     (case ensureChild k w1 of
        Inl e \<Rightarrow> (Inl e, w1)
      | Inr w2 \<Rightarrow>
          (case pending (clients w2 k) of
             Some p \<Rightarrow> (Inl (Error ''tau rpc already handling a request''), w2)
           | None \<Rightarrow>
               (case child (clients w2 k) of
                  None \<Rightarrow> (Inl (Error ''tau rpc child not initialized''), w2)
                | Some c \<Rightarrow>
                    (Inr c, upd_proc c (\<lambda>pr. pr\<lparr>stdin := stdin pr @ [envelope (text' n)]\<rparr>)
                              w2))))"
    unfolding w1_def by (rule prompt_write_unfold [OF n])
  have f1: "clients w1 = clients w" "timers w1 = timers w" "settled w1 = settled w"
    "observed w1 = observed w" "next_tid w1 = next_tid w" "next_cid w1 = next_cid w"
    "next_kid w1 = next_kid w" "singleton w1 = singleton w"
    by (simp_all add: w1_def)
  show ?thesis
  proof (cases "ensureChild k w1")
    case (Inl e)
    then show ?thesis using f1 by (simp add: pw)
  next
    case (Inr w2)
    note f2 = ensureChild_frame [OF Inr]
    show ?thesis
    proof (cases "pending (clients w2 k)")
      case (Some p)
      then show ?thesis using f1 by (simp add: pw Inr f2)
    next
      case None
      then show ?thesis using f1 by (cases "child (clients w2 k)") (simp_all add: pw Inr f2)
    qed
  qed
qed

lemma prompt_write_frame:
  shows "pending (clients (snd (prompt_write k prm w)) k') = pending (clients w k')"
    and "idleTimer (clients (snd (prompt_write k prm w)) k') = idleTimer (clients w k')"
    and "stderr' (clients (snd (prompt_write k prm w)) k') = stderr' (clients w k')"
    and "buffer (clients (snd (prompt_write k prm w)) k') = buffer (clients w k')"
    and "timers (snd (prompt_write k prm w)) = timers w"
    and "settled (snd (prompt_write k prm w)) = settled w"
    and "observed (snd (prompt_write k prm w)) = observed w"
    and "next_tid (snd (prompt_write k prm w)) = next_tid w"
    and "next_cid (snd (prompt_write k prm w)) = next_cid w"
    and "next_kid (snd (prompt_write k prm w)) = next_kid w"
    and "singleton (snd (prompt_write k prm w)) = singleton w"
  using prompt_write_frame_all [of k prm w k'] by simp_all

lemma consistent_prompt_write: "consistent w \<Longrightarrow> consistent (snd (prompt_write k prm w))"
  by (erule consistent_frame) (simp_all add: prompt_write_frame)

lemma consistent_prompt_wait: "consistent w \<Longrightarrow> consistent (snd (prompt_wait k c tmo ev w))"
  by (erule consistent_arm [where k = k and ev = ev and cap = "min tmo (5 * 60 * 1000)" and ch = c])
     (simp_all add: prompt_wait_def Let_def)

lemma consistent_prompt: "consistent w \<Longrightarrow> consistent (snd (prompt k prm tmo ev wr w))"
proof -
  assume c: "consistent w"
  obtain r w1 where pw: "prompt_write k prm w = (r, w1)" by (cases "prompt_write k prm w")
  have c1: "consistent w1" using consistent_prompt_write [OF c, of k prm] pw by simp
  show ?thesis
  proof (cases r)
    case (Inl e)
    then show ?thesis using c1 pw by (simp add: prompt_def)
  next
    case (Inr ch)
    show ?thesis
    proof (cases wr)
      case Flushed
      then show ?thesis
        using consistent_prompt_wait [OF c1, of k ch tmo ev] pw Inr
        by (auto simp add: prompt_def split: prod.splits)
    next
      case (WriteError e)
      then show ?thesis using c1 pw Inr by (simp add: prompt_def)
    qed
  qed
qed

lemma consistent_new_client: "consistent w \<Longrightarrow> consistent (snd (new_client key opts w))"
  by (erule consistent_drop [where k = "next_kid w"])
     (simp_all add: new_client_def Let_def fresh_client_def)

lemma consistent_acquire: "consistent w \<Longrightarrow> consistent (snd (acquire opts w))"
  by (auto simp: acquire_def Let_def consistent_new_client consistent_dispose
           split: option.splits)

lemma consistent_runPiRpc: "consistent w \<Longrightarrow> consistent (snd (runPiRpc opts wr w))"
  using consistent_acquire [of w opts]
  by (auto simp: runPiRpc_def consistent_prompt split: prod.splits)

lemma consistent_resetPiRpc: "consistent w \<Longrightarrow> consistent (resetPiRpc w)"
proof -
  assume c: "consistent w"
  have "\<And>v. consistent v \<Longrightarrow> consistent (v\<lparr>singleton := None\<rparr>)"
    by (erule consistent_frame) simp_all
  then show ?thesis using c
    by (auto simp: resetPiRpc_def consistent_dispose split: option.splits)
qed

section \<open>Exactly one resolution\<close>

lemma handleLine_settled:
  "settled (handleLine k l w) =
     settled w @
     (case pending (clients w k) of
        None \<Rightarrow> []
      | Some p \<Rightarrow>
          if is_agent_end l
          then [(resolve p, Resolved \<lparr>stdout = join [CHR 0x0A] (buffer (clients w k) @ [l]),
                                       stderr = stderr' (clients w k), code = 0, signal = None,
                                       killed = None\<rparr>)]
          else [])"
  by (simp add: handleLine_def Let_def split: option.splits)

lemma handleLine_timers:
  "timers (handleLine k l w) =
     (case pending (clients w k) of
        None \<Rightarrow> timers w
      | Some p \<Rightarrow> if is_agent_end l then (timers w)(timer p := None) else timers w)"
  by (simp add: handleLine_def Let_def split: option.splits)

lemma on_exit_settled:
  "idleTimer (clients w k) = None \<Longrightarrow>
   settled (on_exit k ec es w) =
     settled w @
     (case pending (clients w k) of
        None \<Rightarrow> []
      | Some p \<Rightarrow>
          [(resolve p, Resolved \<lparr>stdout = join [CHR 0x0A] (buffer (clients w k)),
                                  stderr = stderr' (clients w k),
                                  code = (case ec of None \<Rightarrow> 0 | Some c \<Rightarrow> c),
                                  signal = Some es, killed = None\<rparr>)])"
  by (simp add: on_exit_def Let_def split: option.splits)

lemma on_exit_timers:
  "idleTimer (clients w k) = None \<Longrightarrow>
   timers (on_exit k ec es w) =
     (case pending (clients w k) of
        None \<Rightarrow> timers w
      | Some p \<Rightarrow> (timers w)(timer p := None))"
  by (simp add: on_exit_def Let_def split: option.splits)

lemma on_timeout_settled:
  "settled (on_timeout t w) =
     settled w @
     (case timers w t of
        None \<Rightarrow> []
      | Some tm \<Rightarrow>
          [(t_reject tm,
            Rejected (Error (''tau rpc timed out after '' @ show_int (capMs tm) @ ''ms'')))])"
  by (simp add: on_timeout_def Let_def split: option.splits)

lemma on_timeout_timers: "timers (on_timeout t w) = (timers w)(t := None)"
  by (auto simp add: on_timeout_def Let_def split: option.splits)

lemma step_settled_prefix: "consistent w \<Longrightarrow> prefix (settled w) (settled (step e w))"
  by (cases e)
     (auto simp: handleLine_settled on_exit_settled on_timeout_settled consistent_idle
           split: option.splits)

lemma run_settled_prefix: "consistent w \<Longrightarrow> prefix (settled w) (settled (run es w))"
proof (induction es arbitrary: w)
  case Nil
  then show ?case by simp
next
  case (Cons e es)
  have "prefix (settled w) (settled (step e w))"
    using Cons.prems by (rule step_settled_prefix)
  moreover have "prefix (settled (step e w)) (settled (run es (step e w)))"
    using Cons.prems by (intro Cons.IH consistent_step)
  ultimately show ?case by (auto intro: prefix_order.trans)
qed

lemma settled_for_prefix:
  "prefix (settled w) (settled w') \<Longrightarrow> prefix (settled_for c w) (settled_for c w')"
  by (auto simp: settled_for_def prefix_def)

lemma run_append: "run (es @ es') w = run es' (run es w)"
  by (induction es arbitrary: w) simp_all

lemma consistent_once: "consistent w \<Longrightarrow> length (settled_for c w) \<le> 1"
  by (simp add: consistent_def)

lemma settled_for_stable:
  assumes c: "consistent w" and s: "settled_for c w = [r]"
  shows "settled_for c (run es w) = [r]"
proof -
  have "prefix (settled_for c w) (settled_for c (run es w))"
    using c by (intro settled_for_prefix run_settled_prefix)
  then obtain zs where zs: "settled_for c (run es w) = [r] @ zs"
    using s by (auto simp: prefix_def)
  have "length (settled_for c (run es w)) \<le> 1"
    using c by (intro consistent_once consistent_run)
  then show ?thesis using zs by simp
qed

lemma step_timer:
  assumes c: "consistent w" and t: "timers w t = Some tm"
  shows "timers (step e w) t = Some tm \<or> settled_for (t_reject tm) (step e w) \<noteq> []"
proof -
  have key: "\<And>k p. pending (clients w k) = Some p \<Longrightarrow> timer p = t \<Longrightarrow> resolve p = t_reject tm"
    using consistent_pendingD [OF c] t by fastforce
  show ?thesis
  proof (cases e)
    case (Line p l)
    then show ?thesis using t key
      by (auto simp: handleLine_timers handleLine_settled settled_for_def split: option.splits)
  next
    case (Data p d)
    then show ?thesis using t by (auto split: option.splits)
  next
    case (Exit p ec es)
    then show ?thesis using t key consistent_idle [OF c]
      by (auto simp: on_exit_timers on_exit_settled settled_for_def split: option.splits)
  next
    case (Timeout t')
    then show ?thesis using t
      by (auto simp: on_timeout_timers on_timeout_settled settled_for_def split: option.splits)
  qed
qed

lemma run_timer:
  assumes c: "consistent w" and t: "timers w t = Some tm"
  shows "timers (run es w) t = Some tm \<or> settled_for (t_reject tm) (run es w) \<noteq> []"
  using c t
proof (induction es arbitrary: w)
  case Nil
  then show ?case by simp
next
  case (Cons e es)
  have c': "consistent (step e w)" using Cons.prems(1) by (rule consistent_step)
  from step_timer [OF Cons.prems, of e]
  show ?case
  proof
    assume "timers (step e w) t = Some tm"
    then show ?thesis using Cons.IH [OF c'] by simp
  next
    assume s: "settled_for (t_reject tm) (step e w) \<noteq> []"
    have "prefix (settled_for (t_reject tm) (step e w)) (settled_for (t_reject tm) (run es (step e w)))"
      using c' by (intro settled_for_prefix run_settled_prefix)
    then show ?thesis using s by (auto simp: prefix_def)
  qed
qed

lemma timeout_settles:
  assumes c: "consistent w" and t: "timers w t = Some tm" and m: "Timeout t \<in> set es"
  shows "settled_for (t_reject tm) (run es w) \<noteq> []"
proof -
  from m obtain es1 es2 where es: "es = es1 @ Timeout t # es2" by (auto dest: split_list)
  let ?w1 = "run es1 w"
  have c1: "consistent ?w1" using c by (rule consistent_run)
  have "settled_for (t_reject tm) (step (Timeout t) ?w1) \<noteq> []"
  proof (cases "timers ?w1 t = Some tm")
    case True
    then show ?thesis by (simp add: on_timeout_settled settled_for_def)
  next
    case False
    then have s: "settled_for (t_reject tm) ?w1 \<noteq> []" using run_timer [OF c t, of es1] by simp
    have "prefix (settled_for (t_reject tm) ?w1) (settled_for (t_reject tm) (step (Timeout t) ?w1))"
      using c1 by (intro settled_for_prefix step_settled_prefix)
    then show ?thesis using s by (auto simp: prefix_def)
  qed
  moreover have "prefix (settled_for (t_reject tm) (step (Timeout t) ?w1))
                        (settled_for (t_reject tm) (run es2 (step (Timeout t) ?w1)))"
    using c1 by (intro settled_for_prefix run_settled_prefix consistent_step)
  ultimately show ?thesis by (auto simp: es run_append prefix_def)
qed

text \<open>
  C1: once a call is pending, whatever lines, stderr chunks, exits and timer
  expiries follow, its promise is settled at most once; a settlement that has
  been delivered stays the only one, unchanged, under every further event; as
  long as the promise is not settled the timer of the call is still armed; and
  once that timer has expired the promise is settled exactly once.
\<close>

theorem C1_exactly_once:
  assumes c: "consistent w" and p: "pending (clients w k) = Some p"
  shows "(\<forall>es. length (settled_for (resolve p) (run es w)) \<le> 1) \<and>
         (\<forall>es es' r. settled_for (resolve p) (run es w) = [r] \<longrightarrow>
                      settled_for (resolve p) (run (es @ es') w) = [r]) \<and>
         (\<forall>es. settled_for (resolve p) (run es w) = [] \<longrightarrow>
               (\<exists>tm. timers (run es w) (timer p) = Some tm \<and> t_reject tm = resolve p)) \<and>
         (\<forall>es. Timeout (timer p) \<in> set es \<longrightarrow> length (settled_for (resolve p) (run es w)) = 1)"
proof -
  from consistent_pendingD [OF c p] obtain tm
    where tm: "timers w (timer p) = Some tm" "t_reject tm = resolve p" by blast
  have once: "\<And>es. length (settled_for (resolve p) (run es w)) \<le> 1"
    using c by (intro consistent_once consistent_run)
  have stable: "\<And>es es' r. settled_for (resolve p) (run es w) = [r] \<Longrightarrow>
                  settled_for (resolve p) (run (es @ es') w) = [r]"
    unfolding run_append using c by (blast intro: settled_for_stable consistent_run)
  have armed: "\<And>es. settled_for (resolve p) (run es w) = [] \<Longrightarrow>
                  \<exists>tm. timers (run es w) (timer p) = Some tm \<and> t_reject tm = resolve p"
    using run_timer [OF c tm(1)] tm(2) by auto
  have fired: "\<And>es. Timeout (timer p) \<in> set es \<Longrightarrow>
                  length (settled_for (resolve p) (run es w)) = 1"
  proof -
    fix es assume "Timeout (timer p) \<in> set es"
    from timeout_settles [OF c tm(1) this] have "settled_for (resolve p) (run es w) \<noteq> []"
      using tm(2) by simp
    then show "length (settled_for (resolve p) (run es w)) = 1"
      using once [of es] by (cases "settled_for (resolve p) (run es w)") auto
  qed
  show ?thesis using once stable armed fired by blast
qed

section \<open>The example run\<close>

lemma example_pending_eq:
  "example_pending =
     \<lparr>clients = (\<lambda>k. fresh_client [] None)
        (0 := \<lparr>argv' = [''pi'', ''--mode'', ''rpc''], cwd' = None, child = Some 0, rl = Some 0,
               stderr' = [], buffer = [], idleTimer = None,
               pending = Some \<lparr>resolve = 0, reject = 0, timer = 0, onEvent' = None\<rparr>\<rparr>),
      procs = [0 \<mapsto> \<lparr>spawnfile = ''pi'', spawnargs = [''--mode'', ''rpc''], spawncwd = None,
                       listener = 0, stdin = [envelope ''hi''], killed' = False, signals = [],
                       exited = False, rl_closed = False\<rparr>],
      timers = [0 \<mapsto> \<lparr>capMs = 300000, t_reject = 0, t_child = 0, t_this = 0\<rparr>],
      settled = [], observed = [], warnings = [],
      singleton = Some (''|pi --mode rpc'', 0),
      next_pid = 1, next_tid = 1, next_cid = 1, next_kid = 1\<rparr>"
  by (simp add: example_pending_def example_opts_def runPiRpc_def acquire_def rpc_key_def
        new_client_def init_world_def prompt_def prompt_write_def normalizePiPrompt_def
        ensureChild_def fresh_client_def upd_client_def upd_proc_def prompt_wait_def Let_def)

lemma example_pending_consistent: "consistent example_pending"
  unfolding example_pending_def by (intro consistent_runPiRpc consistent_init)

text \<open>C1 on the example: the timer expires after one line, then the killed child
  exits and a late line arrives; the promise is settled once.\<close>

theorem C1_witness:
  "consistent example_pending \<and>
   pending (clients example_pending 0) =
     Some \<lparr>resolve = 0, reject = 0, timer = 0, onEvent' = None\<rparr> \<and>
   length (settled_for 0
     (run [Line 0 ''working'', Timeout 0, Exit 0 None (Some ''SIGKILL''), Line 0 ''late'']
        example_pending)) = 1"
proof -
  have p: "pending (clients example_pending 0) =
             Some \<lparr>resolve = 0, reject = 0, timer = 0, onEvent' = None\<rparr>"
    by (simp add: example_pending_eq)
  define es where
    "es = [Line 0 ''working'', Timeout 0, Exit 0 None (Some ''SIGKILL''), Line 0 ''late'']"
  have m: "Timeout 0 \<in> set es" by (simp add: es_def)
  from C1_exactly_once [OF example_pending_consistent p]
  have "\<forall>es. Timeout 0 \<in> set es \<longrightarrow> length (settled_for 0 (run es example_pending)) = 1"
    by simp
  with m have "length (settled_for 0 (run es example_pending)) = 1" by blast
  then show ?thesis using p example_pending_consistent unfolding es_def by blast
qed

section \<open>Resolution by the marker line\<close>

lemma handleLine_client:
  "clients (handleLine k l w) =
     (case pending (clients w k) of
        None \<Rightarrow> clients w
      | Some p \<Rightarrow>
          (clients w)(k := if is_agent_end l
                           then (clients w k)\<lparr>buffer := [], pending := None\<rparr>
                           else (clients w k)\<lparr>buffer := buffer (clients w k) @ [l]\<rparr>))"
  by (auto simp add: handleLine_def Let_def fun_eq_iff split: option.splits)

lemma handleLine_observed:
  "observed (handleLine k l w) =
     observed w @
     (case pending (clients w k) of
        None \<Rightarrow> []
      | Some p \<Rightarrow> (case onEvent' p of None \<Rightarrow> [] | Some f \<Rightarrow> [(f, l)]))"
  by (simp add: handleLine_def Let_def split: option.splits)

lemma handleLine_procs: "procs (handleLine k l w) = procs w"
  by (simp add: handleLine_def Let_def split: option.splits)

lemma is_agent_end_marker: \<open>is_agent_end ''{"type":"agent_end"}''\<close>
  by code_simp

text \<open>
  C3: while a call is pending, a line that decodes to an object whose \<^verbatim>\<open>type\<close> is
  \<^verbatim>\<open>agent_end\<close> resolves the call with the buffered lines and the marker line
  joined by newlines, the accumulated stderr and code 0 (no signal, no killed
  field); the timer of the call is cancelled, the buffer is emptied, the
  pending slot is cleared and the stderr buffer is kept. When no line was
  buffered before, stdout is the marker line.
\<close>

theorem C3_marker_success:
  assumes "procs w c = Some pr" and "\<not> rl_closed pr"
    and "pending (clients w (listener pr)) = Some p" and "is_agent_end line"
  shows "settled (step (Line c line) w) =
           settled w @
           [(resolve p,
             Resolved \<lparr>stdout = join [CHR 0x0A] (buffer (clients w (listener pr)) @ [line]),
                        stderr = stderr' (clients w (listener pr)), code = 0, signal = None,
                        killed = None\<rparr>)] \<and>
         timers (step (Line c line) w) = (timers w)(timer p := None) \<and>
         buffer (clients (step (Line c line) w) (listener pr)) = [] \<and>
         pending (clients (step (Line c line) w) (listener pr)) = None \<and>
         stderr' (clients (step (Line c line) w) (listener pr)) =
           stderr' (clients w (listener pr)) \<and>
         observed (step (Line c line) w) =
           observed w @ (case onEvent' p of None \<Rightarrow> [] | Some f \<Rightarrow> [(f, line)]) \<and>
         (buffer (clients w (listener pr)) = [] \<longrightarrow>
            settled_for (resolve p) (step (Line c line) w) =
              settled_for (resolve p) w @
              [Resolved \<lparr>stdout = line, stderr = stderr' (clients w (listener pr)), code = 0,
                         signal = None, killed = None\<rparr>])"
  using assms
  by (simp add: handleLine_settled handleLine_timers handleLine_client handleLine_observed
        settled_for_def)

text \<open>C3 on the example: the marker is the only line.\<close>

theorem C3_witness:
  \<open>procs example_pending 0 =
     Some \<lparr>spawnfile = ''pi'', spawnargs = [''--mode'', ''rpc''], spawncwd = None,
           listener = 0, stdin = [envelope ''hi''], killed' = False, signals = [],
           exited = False, rl_closed = False\<rparr> \<and>
   pending (clients example_pending 0) =
     Some \<lparr>resolve = 0, reject = 0, timer = 0, onEvent' = None\<rparr> \<and>
   is_agent_end ''{"type":"agent_end"}'' \<and>
   settled (step (Line 0 ''{"type":"agent_end"}'') example_pending) =
     [(0, Resolved \<lparr>stdout = ''{"type":"agent_end"}'', stderr = [], code = 0, signal = None,
                     killed = None\<rparr>)] \<and>
   timers (step (Line 0 ''{"type":"agent_end"}'') example_pending) 0 = None\<close>
proof -
  let ?pr = "\<lparr>spawnfile = ''pi'', spawnargs = [''--mode'', ''rpc''], spawncwd = None,
           listener = 0, stdin = [envelope ''hi''], killed' = False, signals = [],
           exited = False, rl_closed = False\<rparr>"
  let ?p = "\<lparr>resolve = 0, reject = 0, timer = 0, onEvent' = None\<rparr>"
  have a: "procs example_pending 0 = Some ?pr" by (simp add: example_pending_eq)
  have b: "\<not> rl_closed ?pr" by simp
  have c: "pending (clients example_pending (listener ?pr)) = Some ?p"
    by (simp add: example_pending_eq)
  from C3_marker_success [OF a b c is_agent_end_marker] a c is_agent_end_marker
  show ?thesis by (simp add: example_pending_eq)
qed

section \<open>Resolution by the exit of the child\<close>

lemma on_exit_client:
  "clients (on_exit k ec es w) =
     (clients w)(k := (clients w k)\<lparr>pending := None, rl := None, child := None, buffer := [],
                                      stderr' := []\<rparr>)"
  by (auto simp add: on_exit_def Let_def fun_eq_iff split: option.splits)

lemma on_exit_settled':
  "settled (on_exit k ec es w) =
     settled w @
     (case pending (clients w k) of
        None \<Rightarrow> []
      | Some p \<Rightarrow>
          [(resolve p, Resolved \<lparr>stdout = join [CHR 0x0A] (buffer (clients w k)),
                                  stderr = stderr' (clients w k),
                                  code = (case ec of None \<Rightarrow> 0 | Some c \<Rightarrow> c),
                                  signal = Some es, killed = None\<rparr>)])"
  by (simp add: on_exit_def Let_def split: option.splits)

lemma on_exit_timer:
  "pending (clients w k) = Some p \<Longrightarrow> timers (on_exit k ec es w) (timer p) = None"
  by (simp add: on_exit_def Let_def split: option.splits)

lemma dispose_procs:
  "procs (dispose k w) p =
     (case procs w p of
        None \<Rightarrow> None
      | Some pr \<Rightarrow>
          Some ((if child (clients w k) = Some p \<and> \<not> killed' pr \<and> \<not> exited pr
                 then (\<lambda>q. q\<lparr>killed' := True, signals := signals q @ [''SIGKILL'']\<rparr>)
                 else (\<lambda>q. q))
                (if rl (clients w k) = Some p then pr\<lparr>rl_closed := True\<rparr> else pr)))"
  by (auto simp add: dispose_def Let_def kill_def child_killed_def upd_proc_def
           split: option.splits)

lemma on_exit_procs: "procs (on_exit k ec es w) p = procs (dispose k w) p"
  by (auto simp add: on_exit_def Let_def dispose_procs split: option.splits)

text \<open>
  C5: when a child exits while a call is pending on its client, the call is
  resolved, not rejected, with the lines buffered so far joined by newlines,
  the accumulated stderr, the exit code (0 when the child was ended by a signal
  and has none) and the signal, and without a killed field. Then the client is
  disposed: the timer of the call is cancelled, the readline interface is
  closed, and the child handle, the buffer and the stderr buffer are cleared.
\<close>

theorem C5_exit_completion:
  assumes "procs w c = Some pr" and "\<not> exited pr"
    and "pending (clients w (listener pr)) = Some p"
  shows "settled (step (Exit c ecode esignal) w) =
           settled w @
           [(resolve p,
             Resolved \<lparr>stdout = join [CHR 0x0A] (buffer (clients w (listener pr))),
                        stderr = stderr' (clients w (listener pr)),
                        code = (case ecode of None \<Rightarrow> 0 | Some n \<Rightarrow> n),
                        signal = Some esignal, killed = None\<rparr>)] \<and>
         timers (step (Exit c ecode esignal) w) (timer p) = None \<and>
         clients (step (Exit c ecode esignal) w) (listener pr) =
           (clients w (listener pr))\<lparr>pending := None, rl := None, child := None, buffer := [],
                                       stderr' := []\<rparr> \<and>
         (rl (clients w (listener pr)) = Some c \<longrightarrow>
            map_option rl_closed (procs (step (Exit c ecode esignal) w) c) = Some True) \<and>
         map_option exited (procs (step (Exit c ecode esignal) w) c) = Some True \<and>
         map_option signals (procs (step (Exit c ecode esignal) w) c) = Some (signals pr)"
  using assms
  by (simp add: on_exit_settled' on_exit_timer on_exit_client on_exit_procs dispose_procs)

text \<open>C5 on the example: the child exits with code 2 after one line.\<close>

theorem C5_witness:
  "procs example_pending 0 =
     Some \<lparr>spawnfile = ''pi'', spawnargs = [''--mode'', ''rpc''], spawncwd = None,
           listener = 0, stdin = [envelope ''hi''], killed' = False, signals = [],
           exited = False, rl_closed = False\<rparr> \<and>
   pending (clients (step (Line 0 ''partial'') example_pending) 0) =
     Some \<lparr>resolve = 0, reject = 0, timer = 0, onEvent' = None\<rparr> \<and>
   settled (step (Exit 0 (Some 2) None) (step (Line 0 ''partial'') example_pending)) =
     [(0, Resolved \<lparr>stdout = ''partial'', stderr = [], code = 2, signal = Some None,
                     killed = None\<rparr>)] \<and>
   child (clients (step (Exit 0 (Some 2) None) (step (Line 0 ''partial'') example_pending)) 0)
     = None"
proof -
  let ?pr = "\<lparr>spawnfile = ''pi'', spawnargs = [''--mode'', ''rpc''], spawncwd = None,
           listener = 0, stdin = [envelope ''hi''], killed' = False, signals = [],
           exited = False, rl_closed = False\<rparr>"
  let ?p = "\<lparr>resolve = 0, reject = 0, timer = 0, onEvent' = None\<rparr>"
  let ?w = "step (Line 0 ''partial'') example_pending"
  have n: "\<not> is_agent_end ''partial''" by code_simp
  have a0: "procs example_pending 0 = Some ?pr" by (simp add: example_pending_eq)
  have a: "procs ?w 0 = Some ?pr" by (simp add: example_pending_eq handleLine_procs)
  have b: "\<not> exited ?pr" by simp
  have c: "pending (clients ?w (listener ?pr)) = Some ?p"
    by (simp add: example_pending_eq handleLine_client n)
  have d: "buffer (clients ?w 0) = [''partial'']" "stderr' (clients ?w 0) = []"
      "settled ?w = []"
    by (simp_all add: example_pending_eq handleLine_client handleLine_settled n)
  from C5_exit_completion [OF a b c, of "Some 2" None] a0 c d
  show ?thesis by simp
qed

section \<open>Output while no call is pending\<close>

text \<open>
  C10: a line that arrives while no call is pending on the client changes
  nothing at all: it is not buffered, not decoded (no promise is settled), not
  passed to an observer, and whatever is done afterwards goes as if the line
  had never arrived.
\<close>

theorem C10_idle_line_dropped:
  assumes "procs w c = Some pr" and "pending (clients w (listener pr)) = None"
  shows "step (Line c line) w = w \<and> (\<forall>as. exec as (step (Line c line) w) = exec as w)"
  using assms by (simp add: handleLine_def)

text \<open>C10 on the example: after the marker has resolved the call, a marker line
  that arrives late is dropped.\<close>

theorem C10_witness:
  \<open>pending (clients (step (Line 0 ''{"type":"agent_end"}'') example_pending) 0) = None \<and>
   step (Line 0 ''{"type":"agent_end"}'') (step (Line 0 ''{"type":"agent_end"}'') example_pending)
     = step (Line 0 ''{"type":"agent_end"}'') example_pending\<close>
proof -
  let ?pr = "\<lparr>spawnfile = ''pi'', spawnargs = [''--mode'', ''rpc''], spawncwd = None,
           listener = 0, stdin = [envelope ''hi''], killed' = False, signals = [],
           exited = False, rl_closed = False\<rparr>"
  let ?w = \<open>step (Line 0 ''{"type":"agent_end"}'') example_pending\<close>
  have a: "procs ?w 0 = Some ?pr"
    by (simp add: example_pending_eq handleLine_procs)
  have b: "pending (clients ?w (listener ?pr)) = None"
    by (simp add: example_pending_eq handleLine_client is_agent_end_marker)
  from C10_idle_line_dropped [OF a b] b show ?thesis by simp
qed

section \<open>The timeout\<close>

lemma on_timeout_client:
  "timers w t = Some tm \<Longrightarrow>
     clients (on_timeout t w) = (clients w)(t_this tm := (clients w (t_this tm))\<lparr>pending := None\<rparr>)"
  by (simp add: on_timeout_def Let_def)

lemma on_timeout_procs:
  "timers w t = Some tm \<Longrightarrow> procs w (t_child tm) = Some pr \<Longrightarrow> \<not> exited pr \<Longrightarrow>
     procs (on_timeout t w) (t_child tm) =
       Some (pr\<lparr>killed' := True, signals := signals pr @ [''SIGKILL'']\<rparr>)"
  by (simp add: on_timeout_def Let_def kill_def upd_proc_def)

lemma prompt_Inr:
  assumes "prompt k prm tmo ev wr w = (Inr c, w')"
  shows "\<exists>ch w1. prompt_write k prm w = (Inr ch, w1) \<and> wr = Flushed \<and>
           child (clients w1 k) = Some ch \<and> c = next_cid w1 \<and>
           w' = snd (prompt_wait k ch tmo ev w1)"
proof -
  obtain r w1 where pw: "prompt_write k prm w = (r, w1)" by (cases "prompt_write k prm w")
  from assms pw obtain ch where r: "r = Inr ch" and f: "wr = Flushed"
    by (cases r; cases wr) (auto simp: prompt_def split: prod.splits)
  have "\<exists>n. normalizePiPrompt prm = Inr n"
    using pw r by (cases "normalizePiPrompt prm") (simp_all add: prompt_write_def)
  then obtain n where n: "normalizePiPrompt prm = Inr n" ..
  have w': "c = next_cid w1" "w' = snd (prompt_wait k ch tmo ev w1)"
    using assms pw r f by (auto simp: prompt_def prompt_wait_def Let_def split: prod.splits)
  have "child (clients w1 k) = Some ch"
    using pw r unfolding prompt_write_unfold [OF n]
    by (auto split: sum.splits option.splits)
  then show ?thesis using pw r f w' by blast
qed

lemma prompt_write_stdin:
  assumes pw: "prompt_write k prm w = (Inr ch, w0)" and n: "normalizePiPrompt prm = Inr n"
  shows "map_option stdin (procs w0 ch) =
           (if child (clients w k) = None then Some [envelope (text' n)]
            else map_option (\<lambda>pr. stdin pr @ [envelope (text' n)]) (procs w ch))"
proof -
  define w1 where "w1 =
    (if coerced n
     then warn (''tau rpc: coerced non-string prompt to text'' @
                (case previewPrompt prm of
                   None \<Rightarrow> []
                 | Some pv \<Rightarrow> if pv = [] then [] else '' (preview: '' @ pv @ '')'')) w
     else w)"
  have u: "prompt_write k prm w =
     (case ensureChild k w1 of
        Inl e \<Rightarrow> (Inl e, w1)
      | Inr w2 \<Rightarrow>
          (case pending (clients w2 k) of
             Some p \<Rightarrow> (Inl (Error ''tau rpc already handling a request''), w2)
           | None \<Rightarrow>
               (case child (clients w2 k) of
                  None \<Rightarrow> (Inl (Error ''tau rpc child not initialized''), w2)
                | Some c \<Rightarrow>
                    (Inr c, upd_proc c (\<lambda>pr. pr\<lparr>stdin := stdin pr @ [envelope (text' n)]\<rparr>)
                              w2))))"
    unfolding w1_def by (rule prompt_write_unfold [OF n])
  have f1: "clients w1 = clients w" "procs w1 = procs w" "next_pid w1 = next_pid w"
    by (simp_all add: w1_def)
  obtain w2 where e: "ensureChild k w1 = Inr w2"
    using pw unfolding u by (cases "ensureChild k w1") simp_all
  have p: "pending (clients w2 k) = None"
    using pw unfolding u e by (cases "pending (clients w2 k)") simp_all
  have c: "child (clients w2 k) = Some ch"
    and w0: "w0 = upd_proc ch (\<lambda>pr. pr\<lparr>stdin := stdin pr @ [envelope (text' n)]\<rparr>) w2"
    using pw unfolding u e by (cases "child (clients w2 k)"; simp add: p)+
  show ?thesis
  proof (cases "child (clients w k)")
    case (Some c')
    then have "w2 = w1" using e f1 by (simp add: ensureChild_def)
    then show ?thesis using Some c f1 w0 by (simp split: option.splits)
  next
    case None
    then have "procs w2 ch = Some \<lparr>spawnfile = hd (argv' (clients w k)),
                 spawnargs = tl (argv' (clients w k)),
                 spawncwd = cwd' (clients w k), listener = k, stdin = [],
                 killed' = False, signals = [], exited = False, rl_closed = False\<rparr>"
      using e c f1
      by (auto simp: ensureChild_def Let_def split: list.splits if_splits)
    then show ?thesis using None w0 by simp
  qed
qed

text \<open>
  C4: a call that reaches the pending state has armed a timer whose delay is
  the smaller of the requested timeout and five minutes (300000 ms). The timer
  names the child \<open>ch\<close> that the call wrote its prompt to, which is the child
  that the client owns when the call is pending: the prompt line is the last
  chunk of its stdin, the only one when the call spawned it. When that timer
  expires while
  it is still armed, that is, before the marker or the exit has cancelled it,
  the pending slot of the client is cleared, the promise is rejected with an
  error, and that child is sent SIGKILL. The message of the error names the
  delay; it is stated for a timeout that is an integer from \<open>- (2 ^ 53)\<close> on,
  which the template literal prints as its decimal numeral.
\<close>

theorem C4_timeout:
  assumes "prompt k prm tmo ev wr w = (Inr c, w1)"
  shows "\<exists>t ch.
           fst (prompt_write k prm w) = Inr ch \<and>
           child (clients w1 k) = Some ch \<and>
           (\<exists>n. normalizePiPrompt prm = Inr n \<and>
                map_option stdin (procs w1 ch) =
                  (if child (clients w k) = None then Some [envelope (text' n)]
                   else map_option (\<lambda>pr. stdin pr @ [envelope (text' n)]) (procs w ch))) \<and>
           pending (clients w1 k) = Some \<lparr>resolve = c, reject = c, timer = t, onEvent' = ev\<rparr> \<and>
           timers w1 t = Some \<lparr>capMs = min tmo 300000, t_reject = c, t_child = ch, t_this = k\<rparr> \<and>
           (\<forall>w2::world. timers w2 t =
                   Some \<lparr>capMs = min tmo 300000, t_reject = c, t_child = ch, t_this = k\<rparr> \<longrightarrow>
              pending (clients (step (Timeout t) w2) k) = None \<and>
              timers (step (Timeout t) w2) t = None \<and>
              (\<exists>msg. settled (step (Timeout t) w2) = settled w2 @ [(c, Rejected (Error msg))] \<and>
                     (- 9007199254740992 \<le> tmo \<longrightarrow>
                        msg = ''tau rpc timed out after '' @ show_int (min tmo 300000) @ ''ms'')) \<and>
              (\<forall>pr. procs w2 ch = Some pr \<and> \<not> exited pr \<longrightarrow>
                 procs (step (Timeout t) w2) ch =
                   Some (pr\<lparr>killed' := True, signals := signals pr @ [''SIGKILL'']\<rparr>)))"
proof -
  from prompt_Inr [OF assms] obtain ch w0
    where pw: "prompt_write k prm w = (Inr ch, w0)"
      and ch: "child (clients w0 k) = Some ch"
      and w1: "c = next_cid w0" "w1 = snd (prompt_wait k ch tmo ev w0)" by blast
  let ?t = "next_tid w0"
  let ?tm = "\<lparr>capMs = min tmo 300000, t_reject = c, t_child = ch, t_this = k\<rparr>"
  have a: "pending (clients w1 k) = Some \<lparr>resolve = c, reject = c, timer = ?t, onEvent' = ev\<rparr>"
    and b: "timers w1 ?t = Some ?tm"
    and d: "child (clients w1 k) = Some ch"
    using ch by (simp_all add: w1 prompt_wait_def Let_def)
  have e: "fst (prompt_write k prm w) = Inr ch" by (simp add: pw)
  have "\<exists>n. normalizePiPrompt prm = Inr n"
    using pw by (cases "normalizePiPrompt prm") (simp_all add: prompt_write_def)
  then obtain n where n: "normalizePiPrompt prm = Inr n" ..
  have "procs w1 = procs w0" by (simp add: w1 prompt_wait_def Let_def)
  then have "map_option stdin (procs w1 ch) =
                  (if child (clients w k) = None then Some [envelope (text' n)]
                   else map_option (\<lambda>pr. stdin pr @ [envelope (text' n)]) (procs w ch))"
    using prompt_write_stdin [OF pw n] by simp
  with n have g: "\<exists>n. normalizePiPrompt prm = Inr n \<and>
                map_option stdin (procs w1 ch) =
                  (if child (clients w k) = None then Some [envelope (text' n)]
                   else map_option (\<lambda>pr. stdin pr @ [envelope (text' n)]) (procs w ch))"
    by blast
  have "\<forall>w2::world. timers w2 ?t = Some ?tm \<longrightarrow>
              pending (clients (step (Timeout ?t) w2) k) = None \<and>
              timers (step (Timeout ?t) w2) ?t = None \<and>
              (\<exists>msg. settled (step (Timeout ?t) w2) = settled w2 @ [(c, Rejected (Error msg))] \<and>
                     (- 9007199254740992 \<le> tmo \<longrightarrow>
                        msg = ''tau rpc timed out after '' @ show_int (min tmo 300000) @ ''ms'')) \<and>
              (\<forall>pr. procs w2 ch = Some pr \<and> \<not> exited pr \<longrightarrow>
                 procs (step (Timeout ?t) w2) ch =
                   Some (pr\<lparr>killed' := True, signals := signals pr @ [''SIGKILL'']\<rparr>))"
  proof (intro allI impI)
    fix w2 :: world assume t: "timers w2 ?t = Some ?tm"
    have x: "\<forall>pr. procs w2 ch = Some pr \<and> \<not> exited pr \<longrightarrow>
                 procs (step (Timeout ?t) w2) ch =
                   Some (pr\<lparr>killed' := True, signals := signals pr @ [''SIGKILL'']\<rparr>)"
      using on_timeout_procs [OF t] by simp
    have y: "pending (clients (step (Timeout ?t) w2) k) = None"
      and z: "timers (step (Timeout ?t) w2) ?t = None"
      and s: "settled (step (Timeout ?t) w2) =
                settled w2 @
                [(c, Rejected (Error (''tau rpc timed out after '' @ show_int (min tmo 300000) @
                                      ''ms'')))]"
      by (simp_all add: on_timeout_client [OF t] on_timeout_timers on_timeout_settled t)
    from s have "\<exists>msg. settled (step (Timeout ?t) w2) = settled w2 @ [(c, Rejected (Error msg))] \<and>
                     (- 9007199254740992 \<le> tmo \<longrightarrow>
                        msg = ''tau rpc timed out after '' @ show_int (min tmo 300000) @ ''ms'')"
      by blast
    with x y z
    show "pending (clients (step (Timeout ?t) w2) k) = None \<and>
              timers (step (Timeout ?t) w2) ?t = None \<and>
              (\<exists>msg. settled (step (Timeout ?t) w2) = settled w2 @ [(c, Rejected (Error msg))] \<and>
                     (- 9007199254740992 \<le> tmo \<longrightarrow>
                        msg = ''tau rpc timed out after '' @ show_int (min tmo 300000) @ ''ms'')) \<and>
              (\<forall>pr. procs w2 ch = Some pr \<and> \<not> exited pr \<longrightarrow>
                 procs (step (Timeout ?t) w2) ch =
                   Some (pr\<lparr>killed' := True, signals := signals pr @ [''SIGKILL'']\<rparr>))"
      by blast
  qed
  with a b d e g show ?thesis by blast
qed

lemma show_int_cap: "show_int 300000 = ''300000''"
  by (simp add: show_int_def show_nat.simps [of 300000] show_nat.simps [of 30000]
        show_nat.simps [of 3000] show_nat.simps [of 300] show_nat.simps [of 30]
        show_nat.simps [of 3] hexdigit_def)

lemma example_prompt:
  "prompt 0 (JStr ''hi'') 600000 None Flushed (snd (acquire example_opts init_world)) =
     (Inr 0, example_pending)"
  by (simp add: example_pending_eq)
     (simp add: example_opts_def acquire_def rpc_key_def
        new_client_def init_world_def prompt_def prompt_write_def normalizePiPrompt_def
        ensureChild_def fresh_client_def upd_client_def upd_proc_def prompt_wait_def Let_def)

text \<open>C4 on the example: ten minutes were asked for, the timer is armed for five,
  and its expiry rejects the call and kills child 0, which the client owns and
  which holds the prompt that was written.\<close>

theorem C4_witness:
  "prompt 0 (JStr ''hi'') 600000 None Flushed (snd (acquire example_opts init_world)) =
     (Inr 0, example_pending) \<and>
   fst (prompt_write 0 (JStr ''hi'') (snd (acquire example_opts init_world))) = Inr 0 \<and>
   child (clients example_pending 0) = Some 0 \<and>
   map_option stdin (procs example_pending 0) = Some [envelope ''hi''] \<and>
   map_option capMs (timers example_pending 0) = Some 300000 \<and>
   map_option t_child (timers example_pending 0) = Some 0 \<and>
   settled (step (Timeout 0) example_pending) =
     [(0, Rejected (Error ''tau rpc timed out after 300000ms''))] \<and>
   map_option signals (procs (step (Timeout 0) example_pending) 0) = Some [''SIGKILL'']"
proof -
  from C4_timeout [OF example_prompt] obtain t ch where
    w: "fst (prompt_write 0 (JStr ''hi'') (snd (acquire example_opts init_world))) = Inr ch"
    and o: "child (clients example_pending 0) = Some ch"
    and q: "\<exists>n. normalizePiPrompt (JStr ''hi'') = Inr n \<and>
                map_option stdin (procs example_pending ch) =
                  (if child (clients (snd (acquire example_opts init_world)) 0) = None
                   then Some [envelope (text' n)]
                   else map_option (\<lambda>pr. stdin pr @ [envelope (text' n)])
                          (procs (snd (acquire example_opts init_world)) ch))"
    and p: "pending (clients example_pending 0) =
          Some \<lparr>resolve = 0, reject = 0, timer = t, onEvent' = None\<rparr>"
    and tm: "timers example_pending t =
          Some \<lparr>capMs = min 600000 300000, t_reject = 0, t_child = ch, t_this = 0\<rparr>"
    and f: "\<forall>w2::world. timers w2 t =
                   Some \<lparr>capMs = min 600000 300000, t_reject = 0, t_child = ch, t_this = 0\<rparr> \<longrightarrow>
              pending (clients (step (Timeout t) w2) 0) = None \<and>
              timers (step (Timeout t) w2) t = None \<and>
              (\<exists>msg. settled (step (Timeout t) w2) = settled w2 @ [(0, Rejected (Error msg))] \<and>
                     (- 9007199254740992 \<le> (600000::int) \<longrightarrow>
                        msg = ''tau rpc timed out after '' @ show_int (min 600000 300000) @
                              ''ms'')) \<and>
              (\<forall>pr. procs w2 ch = Some pr \<and> \<not> exited pr \<longrightarrow>
                 procs (step (Timeout t) w2) ch =
                   Some (pr\<lparr>killed' := True, signals := signals pr @ [''SIGKILL'']\<rparr>))"
    by blast
  have t0: "t = 0" using p by (simp add: example_pending_eq)
  have c0: "ch = 0" using o by (simp add: example_pending_eq)
  have pr: "procs example_pending 0 =
     Some \<lparr>spawnfile = ''pi'', spawnargs = [''--mode'', ''rpc''], spawncwd = None,
           listener = 0, stdin = [envelope ''hi''], killed' = False, signals = [],
           exited = False, rl_closed = False\<rparr>"
    by (simp add: example_pending_eq)
  have s: "settled example_pending = []" by (simp add: example_pending_eq)
  from f [rule_format, OF tm] have
    "\<exists>msg. settled (step (Timeout 0) example_pending) =
              settled example_pending @ [(0, Rejected (Error msg))] \<and>
           (- 9007199254740992 \<le> (600000::int) \<longrightarrow>
              msg = ''tau rpc timed out after '' @ show_int (min 600000 300000) @ ''ms'')"
    and k: "\<forall>pr. procs example_pending 0 = Some pr \<and> \<not> exited pr \<longrightarrow>
           procs (step (Timeout 0) example_pending) 0 =
             Some (pr\<lparr>killed' := True, signals := signals pr @ [''SIGKILL'']\<rparr>)"
    unfolding t0 c0 by blast+
  then have m: "settled (step (Timeout 0) example_pending) =
       settled example_pending @
       [(0, Rejected (Error (''tau rpc timed out after '' @ show_int (min 600000 300000) @ ''ms'')))]"
    by auto
  from m k show ?thesis using example_prompt pr s tm w o unfolding t0 c0
    by (simp add: show_int_cap)
qed

section \<open>A second call while one is pending\<close>

lemma upd_client_warnings:
  "upd_client k f (w\<lparr>warnings := x\<rparr>) = (upd_client k f w)\<lparr>warnings := x\<rparr>"
  by (simp add: upd_client_def)

lemma upd_proc_warnings:
  "upd_proc p f (w\<lparr>warnings := x\<rparr>) = (upd_proc p f w)\<lparr>warnings := x\<rparr>"
  by (simp add: upd_proc_def split: option.splits)

lemma kill_warnings: "kill p s (w\<lparr>warnings := x\<rparr>) = (kill p s w)\<lparr>warnings := x\<rparr>"
  by (simp add: kill_def upd_proc_warnings)

lemma clearTimeout_warnings:
  "clearTimeout t (w\<lparr>warnings := x\<rparr>) = (clearTimeout t w)\<lparr>warnings := x\<rparr>"
  by (simp add: clearTimeout_def)

lemma settle_warnings: "settle c r (w\<lparr>warnings := x\<rparr>) = (settle c r w)\<lparr>warnings := x\<rparr>"
  by (simp add: settle_def)

lemma notify_warnings: "notify ob l (w\<lparr>warnings := x\<rparr>) = (notify ob l w)\<lparr>warnings := x\<rparr>"
  by (simp add: notify_def split: option.splits)

lemma child_killed_warnings: "child_killed (w\<lparr>warnings := x\<rparr>) p = child_killed w p"
  by (simp add: child_killed_def)

lemma dispose_warnings: "dispose k (w\<lparr>warnings := x\<rparr>) = (dispose k w)\<lparr>warnings := x\<rparr>"
  by (simp add: dispose_def Let_def upd_client_warnings upd_proc_warnings kill_warnings
        child_killed_warnings split: option.splits)

lemma handleLine_warnings:
  "handleLine k l (w\<lparr>warnings := x\<rparr>) = (handleLine k l w)\<lparr>warnings := x\<rparr>"
  by (simp add: handleLine_def Let_def upd_client_warnings notify_warnings
        clearTimeout_warnings settle_warnings split: option.splits)

lemma on_exit_warnings:
  "on_exit k ec es (w\<lparr>warnings := x\<rparr>) = (on_exit k ec es w)\<lparr>warnings := x\<rparr>"
  by (simp add: on_exit_def Let_def upd_client_warnings dispose_warnings
        clearTimeout_warnings settle_warnings split: option.splits)

lemma on_timeout_warnings:
  "on_timeout t (w\<lparr>warnings := x\<rparr>) = (on_timeout t w)\<lparr>warnings := x\<rparr>"
  by (simp add: on_timeout_def Let_def upd_client_warnings kill_warnings
        clearTimeout_warnings settle_warnings split: option.splits)

lemma step_warnings: "step e (w\<lparr>warnings := x\<rparr>) = (step e w)\<lparr>warnings := x\<rparr>"
  by (cases e)
     (simp_all add: handleLine_warnings on_exit_warnings on_timeout_warnings
        upd_client_warnings upd_proc_warnings split: option.splits)

lemma run_warnings: "run es (w\<lparr>warnings := x\<rparr>) = (run es w)\<lparr>warnings := x\<rparr>"
  by (induction es arbitrary: w) (simp_all add: step_warnings)

lemma prompt_busy:
  assumes p: "pending (clients w k) = Some p" and c: "child (clients w k) = Some ch"
    and n: "normalizePiPrompt prm = Inr n"
  shows "fst (prompt k prm tmo ev wr w) = Inl (Error ''tau rpc already handling a request'') \<and>
         (\<exists>x. snd (prompt k prm tmo ev wr w) = w\<lparr>warnings := x\<rparr>)"
proof -
  have e: "\<And>v. clients v = clients w \<Longrightarrow> ensureChild k v = Inr v"
    using c by (simp add: ensureChild_def)
  show ?thesis
  proof (cases "coerced n")
    case True
    have "\<And>m. \<exists>x. warn m w = w\<lparr>warnings := x\<rparr>"
      unfolding warn_def by (rule exI) (rule refl)
    then show ?thesis using p
      by (simp add: prompt_def prompt_write_unfold [OF n] True e)
  next
    case False
    have "\<exists>x. w = w\<lparr>warnings := x\<rparr>"
      by (rule exI [of _ "warnings w"]) simp
    then show ?thesis using p
      by (simp add: prompt_def prompt_write_unfold [OF n] False e)
  qed
qed

text \<open>
  Where the check of \<^verbatim>\<open>prompt\<close> holds: on a client whose pending slot is filled
  and that owns a child, a call whose prompt the normalizer accepts is rejected
  with the error \<^verbatim>\<open>tau rpc already handling a request\<close>, and the world is as
  before but for the console warning.
\<close>

lemma prompt_rejected_when_slot_filled:
  assumes "pending (clients w k) = Some p" and "child (clients w k) = Some ch"
    and "normalizePiPrompt prm = Inr n"
  shows "fst (prompt k prm tmo ev wr w) = Inl (Error ''tau rpc already handling a request'') \<and>
         procs (snd (prompt k prm tmo ev wr w)) = procs w \<and>
         clients (snd (prompt k prm tmo ev wr w)) = clients w \<and>
         timers (snd (prompt k prm tmo ev wr w)) = timers w \<and>
         settled (snd (prompt k prm tmo ev wr w)) = settled w \<and>
         observed (snd (prompt k prm tmo ev wr w)) = observed w \<and>
         (\<forall>es. settled (run es (snd (prompt k prm tmo ev wr w))) = settled (run es w) \<and>
               clients (run es (snd (prompt k prm tmo ev wr w))) = clients (run es w) \<and>
               procs (run es (snd (prompt k prm tmo ev wr w))) = procs (run es w))"
proof -
  from prompt_busy [OF assms, of tmo ev wr] obtain x
    where f: "fst (prompt k prm tmo ev wr w) = Inl (Error ''tau rpc already handling a request'')"
      and s: "snd (prompt k prm tmo ev wr w) = w\<lparr>warnings := x\<rparr>"
    by blast
  show ?thesis unfolding s using f by (simp add: run_warnings)
qed

lemma first_write_eq:
  "first_write =
     \<lparr>clients = (\<lambda>k. fresh_client [] None)
        (0 := \<lparr>argv' = [''pi'', ''--mode'', ''rpc''], cwd' = None, child = Some 0, rl = Some 0,
               stderr' = [], buffer = [], idleTimer = None, pending = None\<rparr>),
      procs = [0 \<mapsto> \<lparr>spawnfile = ''pi'', spawnargs = [''--mode'', ''rpc''], spawncwd = None,
                       listener = 0, stdin = [envelope ''hi''], killed' = False, signals = [],
                       exited = False, rl_closed = False\<rparr>],
      timers = Map.empty,
      settled = [], observed = [], warnings = [],
      singleton = Some (''|pi --mode rpc'', 0),
      next_pid = 1, next_tid = 0, next_cid = 0, next_kid = 1\<rparr>"
  by (simp add: first_write_def example_opts_def acquire_def rpc_key_def
        new_client_def init_world_def prompt_write_def normalizePiPrompt_def
        ensureChild_def fresh_client_def upd_client_def upd_proc_def Let_def)

lemma second_acquire: "acquire second_opts first_write = (0, first_write)"
  by (simp add: acquire_def rpc_key_def second_opts_def example_opts_def first_write_eq)

lemma second_write_eq:
  "second_write =
     \<lparr>clients = (\<lambda>k. fresh_client [] None)
        (0 := \<lparr>argv' = [''pi'', ''--mode'', ''rpc''], cwd' = None, child = Some 0, rl = Some 0,
               stderr' = [], buffer = [], idleTimer = None, pending = None\<rparr>),
      procs = [0 \<mapsto> \<lparr>spawnfile = ''pi'', spawnargs = [''--mode'', ''rpc''], spawncwd = None,
                       listener = 0, stdin = [envelope ''hi'', envelope ''again''],
                       killed' = False, signals = [], exited = False, rl_closed = False\<rparr>],
      timers = Map.empty,
      settled = [], observed = [], warnings = [],
      singleton = Some (''|pi --mode rpc'', 0),
      next_pid = 1, next_tid = 0, next_cid = 0, next_kid = 1\<rparr>"
  unfolding second_write_def second_acquire snd_conv
  by (simp add: first_write_eq prompt_write_def normalizePiPrompt_def
        ensureChild_def upd_proc_def Let_def)

lemma overlapping_calls_eq:
  "overlapping_calls =
     \<lparr>clients = (\<lambda>k. fresh_client [] None)
        (0 := \<lparr>argv' = [''pi'', ''--mode'', ''rpc''], cwd' = None, child = Some 0, rl = Some 0,
               stderr' = [], buffer = [], idleTimer = None,
               pending = Some \<lparr>resolve = 1, reject = 1, timer = 1, onEvent' = None\<rparr>\<rparr>),
      procs = [0 \<mapsto> \<lparr>spawnfile = ''pi'', spawnargs = [''--mode'', ''rpc''], spawncwd = None,
                       listener = 0, stdin = [envelope ''hi'', envelope ''again''],
                       killed' = False, signals = [], exited = False, rl_closed = False\<rparr>],
      timers = [0 \<mapsto> \<lparr>capMs = 300000, t_reject = 0, t_child = 0, t_this = 0\<rparr>,
                1 \<mapsto> \<lparr>capMs = 300000, t_reject = 1, t_child = 0, t_this = 0\<rparr>],
      settled = [], observed = [], warnings = [],
      singleton = Some (''|pi --mode rpc'', 0),
      next_pid = 1, next_tid = 2, next_cid = 2, next_kid = 1\<rparr>"
  by (simp add: overlapping_calls_def second_write_eq prompt_wait_def upd_client_def Let_def)

text \<open>
  C2 says that a second call made while a call is pending on the client is
  rejected at once and writes nothing. The check of \<^verbatim>\<open>prompt\<close> reads the pending
  slot before the write is awaited, and the slot is filled only after it. On
  the empty registry, two calls made one after the other both find the slot
  empty: the second is served by the same client, is not rejected, and writes
  its prompt to the child after the prompt of the first. The executor of the
  second promise then takes the slot from the first. The marker line
  resolves the second call only; the first call is settled by its timer, five
  minutes later, with the timeout error, and that timer kills the child.
\<close>

theorem C2_overlapping_calls:
  \<open>fst (acquire example_opts init_world) = 0 \<and>
   fst (prompt_write 0 (JStr ''hi'') (snd (acquire example_opts init_world))) = Inr 0 \<and>
   pending (clients first_write 0) = None \<and>
   acquire second_opts first_write = (0, first_write) \<and>
   fst (prompt_write 0 (JStr ''again'') first_write) = Inr 0 \<and>
   map_option stdin (procs second_write 0) = Some [envelope ''hi'', envelope ''again''] \<and>
   fst (prompt_wait 0 0 600000 None second_write) = 0 \<and>
   fst (prompt_wait 0 0 600000 None (snd (prompt_wait 0 0 600000 None second_write))) = 1 \<and>
   pending (clients overlapping_calls 0) =
     Some \<lparr>resolve = 1, reject = 1, timer = 1, onEvent' = None\<rparr> \<and>
   settled (run [Line 0 ''{"type":"agent_end"}''] overlapping_calls) =
     [(1, Resolved \<lparr>stdout = ''{"type":"agent_end"}'', stderr = [], code = 0, signal = None,
                     killed = None\<rparr>)] \<and>
   settled (run [Line 0 ''{"type":"agent_end"}'', Timeout 0] overlapping_calls) =
     [(1, Resolved \<lparr>stdout = ''{"type":"agent_end"}'', stderr = [], code = 0, signal = None,
                     killed = None\<rparr>),
      (0, Rejected (Error ''tau rpc timed out after 300000ms''))] \<and>
   map_option signals
     (procs (run [Line 0 ''{"type":"agent_end"}'', Timeout 0] overlapping_calls) 0) =
     Some [''SIGKILL'']\<close>
proof -
  let ?m = \<open>''{"type":"agent_end"}''\<close>
  have 1: "fst (acquire example_opts init_world) = 0"
    by (simp add: acquire_def new_client_def init_world_def Let_def)
  have 2: "fst (prompt_write 0 (JStr ''hi'') (snd (acquire example_opts init_world))) = Inr 0"
    by (simp add: example_opts_def acquire_def rpc_key_def
        new_client_def init_world_def prompt_write_def normalizePiPrompt_def
        ensureChild_def fresh_client_def upd_client_def upd_proc_def Let_def)
  have 3: "pending (clients first_write 0) = None" by (simp add: first_write_eq)
  have 4: "fst (prompt_write 0 (JStr ''again'') first_write) = Inr 0"
    by (simp add: first_write_eq prompt_write_def normalizePiPrompt_def
        ensureChild_def upd_proc_def Let_def)
  have 5: "map_option stdin (procs second_write 0) = Some [envelope ''hi'', envelope ''again'']"
    by (simp add: second_write_eq)
  have 6: "fst (prompt_wait 0 0 600000 None second_write) = 0"
    by (simp add: second_write_eq prompt_wait_def Let_def)
  have 7: "fst (prompt_wait 0 0 600000 None (snd (prompt_wait 0 0 600000 None second_write))) = 1"
    by (simp add: second_write_eq prompt_wait_def Let_def)
  have 8: "pending (clients overlapping_calls 0) =
     Some \<lparr>resolve = 1, reject = 1, timer = 1, onEvent' = None\<rparr>"
    by (simp add: overlapping_calls_eq)
  define w1 where "w1 = step (Line 0 ?m) overlapping_calls"
  have s1: "settled w1 =
     [(1, Resolved \<lparr>stdout = ?m, stderr = [], code = 0, signal = None, killed = None\<rparr>)]"
    unfolding w1_def
    by (simp add: overlapping_calls_eq handleLine_settled is_agent_end_marker)
  have t1: "timers w1 0 = Some \<lparr>capMs = 300000, t_reject = 0, t_child = 0, t_this = 0\<rparr>"
    unfolding w1_def
    by (simp add: overlapping_calls_eq handleLine_timers is_agent_end_marker)
  have p1: "procs w1 0 =
     Some \<lparr>spawnfile = ''pi'', spawnargs = [''--mode'', ''rpc''], spawncwd = None,
           listener = 0, stdin = [envelope ''hi'', envelope ''again''],
           killed' = False, signals = [], exited = False, rl_closed = False\<rparr>"
    unfolding w1_def
    by (simp add: overlapping_calls_eq handleLine_procs)
  have 9: "settled (run [Line 0 ?m] overlapping_calls) =
     [(1, Resolved \<lparr>stdout = ?m, stderr = [], code = 0, signal = None, killed = None\<rparr>)]"
    using s1 unfolding w1_def by simp
  have r: "run [Line 0 ?m, Timeout 0] overlapping_calls = on_timeout 0 w1"
    unfolding w1_def by simp
  have 10: "settled (run [Line 0 ?m, Timeout 0] overlapping_calls) =
     [(1, Resolved \<lparr>stdout = ?m, stderr = [], code = 0, signal = None, killed = None\<rparr>),
      (0, Rejected (Error ''tau rpc timed out after 300000ms''))]"
    unfolding r by (simp add: on_timeout_settled s1 t1 show_int_cap)
  have 11: "map_option signals (procs (run [Line 0 ?m, Timeout 0] overlapping_calls) 0) =
     Some [''SIGKILL'']"
    unfolding r using on_timeout_procs [OF t1, of "the (procs w1 0)"] p1 by simp
  from 1 2 3 second_acquire 4 5 6 7 8 9 10 11 show ?thesis by blast
qed

text \<open>
  The check also comes after \<^verbatim>\<open>ensureChild\<close>. When the child of the first call
  exits while its write is awaited, the slot is filled on a client that owns no
  child; a second call is then rejected by the check, after it has spawned a
  new child.
\<close>

lemma rejected_call_spawns:
  "pending (clients exit_during_write 0) =
     Some \<lparr>resolve = 0, reject = 0, timer = 0, onEvent' = None\<rparr> \<and>
   child (clients exit_during_write 0) = None \<and>
   procs exit_during_write 1 = None \<and>
   fst (runPiRpc second_opts Flushed exit_during_write) =
     Inl (Error ''tau rpc already handling a request'') \<and>
   map_option spawnargs (procs (snd (runPiRpc second_opts Flushed exit_during_write)) 1) =
     Some [''--mode'', ''rpc''] \<and>
   child (clients (snd (runPiRpc second_opts Flushed exit_during_write)) 0) = Some 1"
proof -
  have e: "exit_during_write =
     \<lparr>clients = (\<lambda>k. fresh_client [] None)
        (0 := \<lparr>argv' = [''pi'', ''--mode'', ''rpc''], cwd' = None, child = None, rl = None,
               stderr' = [], buffer = [], idleTimer = None,
               pending = Some \<lparr>resolve = 0, reject = 0, timer = 0, onEvent' = None\<rparr>\<rparr>),
      procs = [0 \<mapsto> \<lparr>spawnfile = ''pi'', spawnargs = [''--mode'', ''rpc''], spawncwd = None,
                       listener = 0, stdin = [envelope ''hi''], killed' = False, signals = [],
                       exited = True, rl_closed = True\<rparr>],
      timers = [0 \<mapsto> \<lparr>capMs = 300000, t_reject = 0, t_child = 0, t_this = 0\<rparr>],
      settled = [], observed = [], warnings = [],
      singleton = Some (''|pi --mode rpc'', 0),
      next_pid = 1, next_tid = 1, next_cid = 1, next_kid = 1\<rparr>"
    by (simp add: exit_during_write_def first_write_eq on_exit_def dispose_def kill_def
          child_killed_def upd_client_def upd_proc_def prompt_wait_def Let_def)
  have a: "acquire second_opts exit_during_write = (0, exit_during_write)"
    by (simp add: acquire_def rpc_key_def second_opts_def example_opts_def e)
  have r: "runPiRpc second_opts Flushed exit_during_write =
             prompt 0 (JStr ''again'') 600000 None Flushed exit_during_write"
    by (simp add: runPiRpc_def a) (simp add: second_opts_def example_opts_def)
  show ?thesis unfolding r
    by (simp add: e prompt_def prompt_write_def normalizePiPrompt_def ensureChild_def
          upd_client_def Let_def)
qed

section \<open>Reachable worlds\<close>

lemma consistent_perform: "consistent w \<Longrightarrow> consistent (perform a w)"
  by (cases a) (simp_all add: consistent_step consistent_runPiRpc consistent_resetPiRpc)

lemma consistent_exec: "consistent w \<Longrightarrow> consistent (exec as w)"
  by (induction as arbitrary: w) (simp_all add: consistent_perform)

lemma prompt_wait_frame:
  "settled (snd (prompt_wait k c tmo ev w)) = settled w"
  "procs (snd (prompt_wait k c tmo ev w)) = procs w"
  "observed (snd (prompt_wait k c tmo ev w)) = observed w"
  "singleton (snd (prompt_wait k c tmo ev w)) = singleton w"
  "next_kid (snd (prompt_wait k c tmo ev w)) = next_kid w"
  "stderr' (clients (snd (prompt_wait k c tmo ev w)) k') = stderr' (clients w k')"
  "buffer (clients (snd (prompt_wait k c tmo ev w)) k') = buffer (clients w k')"
  by (simp_all add: prompt_wait_def Let_def)

lemma prompt_settled: "settled (snd (prompt k prm tmo ev wr w)) = settled w"
proof -
  obtain r w1 where pw: "prompt_write k prm w = (r, w1)" by (cases "prompt_write k prm w")
  have s: "settled w1 = settled w" using prompt_write_frame(6) [of k prm w] pw by simp
  show ?thesis
  proof (cases r)
    case (Inl e)
    then show ?thesis using pw s by (simp add: prompt_def)
  next
    case (Inr ch)
    show ?thesis
    proof (cases wr)
      case Flushed
      have "prompt k prm tmo ev wr w = (Inr (fst (prompt_wait k ch tmo ev w1)),
                                        snd (prompt_wait k ch tmo ev w1))"
        using pw Inr Flushed by (simp add: prompt_def split: prod.splits)
      then show ?thesis using s by (simp add: prompt_wait_frame)
    next
      case (WriteError e)
      then show ?thesis using pw Inr s by (simp add: prompt_def)
    qed
  qed
qed

lemma acquire_settled: "settled (snd (acquire opts w)) = settled w"
  by (simp add: acquire_def new_client_def Let_def split: option.splits prod.splits)

lemma runPiRpc_settled: "settled (snd (runPiRpc opts wr w)) = settled w"
proof -
  obtain k w1 where a: "acquire opts w = (k, w1)" by (cases "acquire opts w")
  then have "settled w1 = settled w" using acquire_settled [of opts w] by simp
  then show ?thesis using a by (simp add: runPiRpc_def prompt_settled)
qed

lemma resetPiRpc_settled: "settled (resetPiRpc w) = settled w"
  by (simp add: resetPiRpc_def split: option.splits prod.splits)

section \<open>The killed field\<close>

lemma step_no_killed: "list_all no_killed (settled w) \<Longrightarrow> list_all no_killed (settled (step e w))"
  by (cases e)
     (auto simp: handleLine_settled on_exit_settled' on_timeout_settled no_killed_def
           split: option.splits)

lemma perform_no_killed:
  "list_all no_killed (settled w) \<Longrightarrow> list_all no_killed (settled (perform a w))"
  by (cases a) (simp_all add: step_no_killed runPiRpc_settled resetPiRpc_settled)

lemma exec_no_killed:
  "list_all no_killed (settled w) \<Longrightarrow> list_all no_killed (settled (exec as w))"
  by (induction as arbitrary: w) (simp_all add: perform_no_killed)

lemma example_reset:
  "resetPiRpc example_pending =
     \<lparr>clients = (\<lambda>k. fresh_client [] None)
        (0 := \<lparr>argv' = [''pi'', ''--mode'', ''rpc''], cwd' = None, child = None, rl = None,
               stderr' = [], buffer = [], idleTimer = None,
               pending = Some \<lparr>resolve = 0, reject = 0, timer = 0, onEvent' = None\<rparr>\<rparr>),
      procs = [0 \<mapsto> \<lparr>spawnfile = ''pi'', spawnargs = [''--mode'', ''rpc''], spawncwd = None,
                       listener = 0, stdin = [envelope ''hi''], killed' = True,
                       signals = [''SIGKILL''], exited = False, rl_closed = True\<rparr>],
      timers = [0 \<mapsto> \<lparr>capMs = 300000, t_reject = 0, t_child = 0, t_this = 0\<rparr>],
      settled = [], observed = [], warnings = [],
      singleton = None,
      next_pid = 1, next_tid = 1, next_cid = 1, next_kid = 1\<rparr>"
  by (simp add: example_pending_eq resetPiRpc_def dispose_def upd_client_def upd_proc_def
        kill_def child_killed_def Let_def)

text \<open>
  C8, as the spec states it: a call whose child the core killed and that is
  resolved with a Result has \<^verbatim>\<open>killed: true\<close> in it. On the example, the registry
  is reset while the call is pending: \<^verbatim>\<open>dispose\<close> sends SIGKILL to the child
  (\<^verbatim>\<open>child.killed\<close> becomes true), the child exits on the signal, and the exit
  handler resolves the call with a Result that has no \<^verbatim>\<open>killed\<close> field.
\<close>

theorem C8_killed_counterexample:
  "child_killed
     (exec [Call example_opts Flushed, Reset, Deliver (Exit 0 None (Some ''SIGKILL''))]
        init_world) 0 \<and>
   settled
     (exec [Call example_opts Flushed, Reset, Deliver (Exit 0 None (Some ''SIGKILL''))]
        init_world) =
     [(0, Resolved \<lparr>stdout = [], stderr = [], code = 0, signal = Some (Some ''SIGKILL''),
                     killed = None\<rparr>)]"
proof -
  have e: "exec [Call example_opts Flushed, Reset, Deliver (Exit 0 None (Some ''SIGKILL''))]
             init_world =
           step (Exit 0 None (Some ''SIGKILL'')) (resetPiRpc example_pending)"
    by (simp add: example_pending_def)
  show ?thesis unfolding e
    by (simp add: example_reset on_exit_settled' on_exit_procs dispose_procs child_killed_def)
qed

text \<open>
  C8, amended: no Result that the client delivers has a \<^verbatim>\<open>killed\<close> field, whether
  or not the core killed the child. In every world that calls of \<^verbatim>\<open>runPiRpc\<close>
  and \<^verbatim>\<open>resetPiRpc\<close> and events reach from the empty registry, every settlement
  is a rejection or a Result without that field. And in any world whatever, an
  event adds only such settlements, and neither half of \<^verbatim>\<open>prompt\<close>, nor
  \<^verbatim>\<open>dispose\<close>, nor the choice of the client, nor \<^verbatim>\<open>resetPiRpc\<close> adds or alters a
  settlement.
\<close>

theorem C8_killed_absent:
  "list_all no_killed (settled (exec as init_world)) \<and>
   (\<exists>new. settled (step e w) = settled w @ new \<and> list_all no_killed new) \<and>
   settled (snd (prompt_write k prm w)) = settled w \<and>
   settled (snd (prompt_wait k c tmo ev w)) = settled w \<and>
   settled (dispose k w) = settled w \<and>
   settled (snd (acquire opts w)) = settled w \<and>
   settled (resetPiRpc w) = settled w"
proof -
  have 1: "list_all no_killed (settled (exec as init_world))"
    by (rule exec_no_killed) (simp add: init_world_def)
  have 2: "\<exists>new. settled (step e w) = settled w @ new \<and> list_all no_killed new"
    by (cases e)
       (auto simp: handleLine_settled on_exit_settled' on_timeout_settled no_killed_def
             split: option.splits)
  show ?thesis
    using 1 2
    by (simp add: prompt_write_frame(6) prompt_wait_frame(1) acquire_settled resetPiRpc_settled)
qed

section \<open>The key of the registry\<close>

lemma acquire_reuse:
  "singleton w = Some (rpc_key opts, k) \<Longrightarrow> acquire opts w = (k, w)"
  by (simp add: acquire_def)

lemma acquire_replace:
  "singleton w = Some (key, k) \<Longrightarrow> key \<noteq> rpc_key opts \<Longrightarrow>
     acquire opts w = new_client (rpc_key opts) opts (dispose k w)"
  by (simp add: acquire_def)

lemma runPiRpc_acquired:
  "acquire opts w = (k, w1) \<Longrightarrow>
     runPiRpc opts wr w = prompt k (prompt' opts) (timeoutMs opts) (onEvent opts) wr w1"
  by (simp add: runPiRpc_def)

lemma acquire_first:
  "singleton w = None \<Longrightarrow> acquire opts w = new_client (rpc_key opts) opts w"
  by (simp add: acquire_def)

text \<open>
  C6 at two argument vectors that differ and join to the same text: a first
  call with \<^verbatim>\<open>["pi", "--mode rpc"]\<close> is resolved by the marker, and a second call
  follows with \<^verbatim>\<open>["pi", "--mode", "rpc"]\<close>. The keys are equal, so the cached
  client is kept: no client is constructed, no child is spawned, the child of
  the first call is not killed, and the second prompt is written to it.
\<close>

theorem C6_key_collision:
  \<open>argv colliding_opts \<noteq> argv example_opts \<and>
   rpc_key colliding_opts = rpc_key example_opts \<and>
   singleton (exec [Call colliding_opts Flushed, Deliver (Line 0 ''{"type":"agent_end"}''),
                    Call example_opts Flushed] init_world) = Some (''|pi --mode rpc'', 0) \<and>
   next_kid (exec [Call colliding_opts Flushed, Deliver (Line 0 ''{"type":"agent_end"}''),
                   Call example_opts Flushed] init_world) = 1 \<and>
   next_pid (exec [Call colliding_opts Flushed, Deliver (Line 0 ''{"type":"agent_end"}''),
                   Call example_opts Flushed] init_world) = 1 \<and>
   procs (exec [Call colliding_opts Flushed, Deliver (Line 0 ''{"type":"agent_end"}''),
                Call example_opts Flushed] init_world) 0 =
     Some \<lparr>spawnfile = ''pi'', spawnargs = [''--mode rpc''], spawncwd = None,
           listener = 0, stdin = [envelope ''hi'', envelope ''hi''], killed' = False,
           signals = [], exited = False, rl_closed = False\<rparr>\<close>
proof -
  have k: "rpc_key colliding_opts = ''|pi --mode rpc''" "rpc_key example_opts = ''|pi --mode rpc''"
    by (simp_all add: rpc_key_def colliding_opts_def example_opts_def)
  let ?w1 = "snd (runPiRpc colliding_opts Flushed init_world)"
  have w1: "?w1 =
     \<lparr>clients = (\<lambda>k. fresh_client [] None)
        (0 := \<lparr>argv' = [''pi'', ''--mode rpc''], cwd' = None, child = Some 0, rl = Some 0,
               stderr' = [], buffer = [], idleTimer = None,
               pending = Some \<lparr>resolve = 0, reject = 0, timer = 0, onEvent' = None\<rparr>\<rparr>),
      procs = [0 \<mapsto> \<lparr>spawnfile = ''pi'', spawnargs = [''--mode rpc''], spawncwd = None,
                       listener = 0, stdin = [envelope ''hi''], killed' = False, signals = [],
                       exited = False, rl_closed = False\<rparr>],
      timers = [0 \<mapsto> \<lparr>capMs = 300000, t_reject = 0, t_child = 0, t_this = 0\<rparr>],
      settled = [], observed = [], warnings = [],
      singleton = Some (''|pi --mode rpc'', 0),
      next_pid = 1, next_tid = 1, next_cid = 1, next_kid = 1\<rparr>"
    by (simp add: colliding_opts_def runPiRpc_def acquire_def rpc_key_def
        new_client_def init_world_def prompt_def prompt_write_def normalizePiPrompt_def
        ensureChild_def fresh_client_def upd_client_def upd_proc_def prompt_wait_def Let_def)
  define w2 where \<open>w2 = step (Line 0 ''{"type":"agent_end"}'') ?w1\<close>
  have w2: "singleton w2 = Some (''|pi --mode rpc'', 0)" "next_kid w2 = 1" "next_pid w2 = 1"
    "procs w2 0 = Some \<lparr>spawnfile = ''pi'', spawnargs = [''--mode rpc''], spawncwd = None,
                       listener = 0, stdin = [envelope ''hi''], killed' = False, signals = [],
                       exited = False, rl_closed = False\<rparr>"
    "pending (clients w2 0) = None" "child (clients w2 0) = Some 0"
    unfolding w2_def w1 by (simp_all add: handleLine_def Let_def is_agent_end_marker)
  have a: "acquire example_opts w2 = (0, w2)"
    using w2(1) k(2) by (simp add: acquire_reuse)
  have n: "normalizePiPrompt (JStr ''hi'') = Inr \<lparr>text' = ''hi'', coerced = False\<rparr>"
    by (simp add: normalizePiPrompt_def)
  have e: "ensureChild 0 w2 = Inr w2" using w2(6) by (simp add: ensureChild_def)
  have pw: "prompt_write 0 (JStr ''hi'') w2 =
              (Inr 0, upd_proc 0 (\<lambda>pr. pr\<lparr>stdin := stdin pr @ [envelope ''hi'']\<rparr>) w2)"
    unfolding prompt_write_unfold [OF n] using e w2(5,6) by simp
  have r: "snd (runPiRpc example_opts Flushed w2) =
             snd (prompt_wait 0 0 600000 None
                    (upd_proc 0 (\<lambda>pr. pr\<lparr>stdin := stdin pr @ [envelope ''hi'']\<rparr>) w2))"
    unfolding runPiRpc_acquired [OF a]
    by (simp add: example_opts_def prompt_def pw split: prod.splits)
  have x: \<open>exec [Call colliding_opts Flushed, Deliver (Line 0 ''{"type":"agent_end"}''),
                 Call example_opts Flushed] init_world =
           snd (runPiRpc example_opts Flushed w2)\<close>
    by (simp add: w2_def)
  have c: "argv colliding_opts \<noteq> argv example_opts"
    by (simp add: colliding_opts_def example_opts_def)
  show ?thesis unfolding x r using k w2 c
    by (simp add: prompt_wait_def Let_def)
qed

section \<open>The stderr buffer\<close>

lemma handleLine_stderr: "stderr' (clients (handleLine k l w) k') = stderr' (clients w k')"
  by (simp add: handleLine_client split: option.splits)

lemma on_timeout_stderr: "stderr' (clients (on_timeout t w) k') = stderr' (clients w k')"
  by (cases "timers w t") (simp_all add: on_timeout_client, simp add: on_timeout_def)

lemma step_stderr_prefix:
  assumes "\<And>q a b. e \<noteq> Exit q a b"
  shows "prefix (stderr' (clients w k)) (stderr' (clients (step e w) k))"
proof (cases e)
  case (Line p l)
  then show ?thesis by (simp add: handleLine_stderr split: option.splits)
next
  case (Data p d)
  then show ?thesis by (simp split: option.splits)
next
  case (Exit p a b)
  then show ?thesis using assms by simp
next
  case (Timeout t)
  then show ?thesis by (simp add: on_timeout_stderr)
qed

lemma run_stderr_prefix:
  assumes "\<And>q a b. Exit q a b \<notin> set es"
  shows "prefix (stderr' (clients w k)) (stderr' (clients (run es w) k))"
  using assms
proof (induction es arbitrary: w)
  case Nil
  then show ?case by simp
next
  case (Cons e es)
  have "prefix (stderr' (clients w k)) (stderr' (clients (step e w) k))"
    using Cons.prems by (intro step_stderr_prefix) auto
  moreover have "prefix (stderr' (clients (step e w) k)) (stderr' (clients (run es (step e w)) k))"
    using Cons.prems by (intro Cons.IH) auto
  ultimately show ?case by (auto intro: prefix_order.trans)
qed

text \<open>While a promise can still be resolved from the slot of client \<open>k\<close>, the
  stderr buffer of \<open>k\<close> extends \<open>S\<close>, and so does the stderr of every Result that
  the promise has received.\<close>

lemma stderr_carried_step:
  assumes r: "\<And>r. (c, Resolved r) \<in> set (settled w) \<Longrightarrow> prefix S (stderr r)"
    and h: "\<And>k' q. pending (clients w k') = Some q \<Longrightarrow> resolve q = c \<Longrightarrow>
                k' = k \<and> prefix S (stderr' (clients w k))"
  shows "(\<forall>r. (c, Resolved r) \<in> set (settled (step e w)) \<longrightarrow> prefix S (stderr r)) \<and>
         (\<forall>k' q. pending (clients (step e w) k') = Some q \<and> resolve q = c \<longrightarrow>
                k' = k \<and> prefix S (stderr' (clients (step e w) k)))"
proof -
  have h1: "\<And>k' q. pending (clients w k') = Some q \<Longrightarrow> resolve q = c \<Longrightarrow> k' = k"
    and h2: "\<And>k' q. pending (clients w k') = Some q \<Longrightarrow> resolve q = c \<Longrightarrow>
               prefix S (stderr' (clients w k'))"
    using h by blast+
  have h3: "\<And>k' q d. pending (clients w k') = Some q \<Longrightarrow> resolve q = c \<Longrightarrow>
               prefix S (stderr' (clients w k') @ d)"
    using h2 by (blast intro: prefix_prefix)
  have goal: "(\<forall>r. (c, Resolved r) \<in> set (settled (step e w)) \<longrightarrow> prefix S (stderr r)) \<and>
         (\<forall>k' q. pending (clients (step e w) k') = Some q \<and> resolve q = c \<longrightarrow>
                k' = k \<and> prefix S (stderr' (clients (step e w) k')))"
  proof (cases e)
    case (Line p l)
    show ?thesis
    proof (cases "procs w p")
      case None
      then show ?thesis using r h1 h2 Line by auto
    next
      case (Some pr)
      show ?thesis using r h1 h2 Line Some
        by (auto simp add: handleLine_settled handleLine_client split: option.splits if_splits)
    qed
  next
    case (Data p d)
    show ?thesis
    proof (cases "procs w p")
      case None
      then show ?thesis using r h1 h2 Data by auto
    next
      case (Some pr)
      show ?thesis using r h1 h2 h3 Data Some by (auto split: if_splits)
    qed
  next
    case (Exit p a b)
    show ?thesis
    proof (cases "procs w p")
      case None
      then show ?thesis using r h1 h2 Exit by auto
    next
      case (Some pr)
      show ?thesis
      proof (cases "pending (clients w (listener pr))")
        case None
        then show ?thesis using r h1 h2 Exit Some
          by (auto simp add: on_exit_settled' on_exit_client split: if_splits)
      next
        case (Some q)
        have "resolve q = c \<Longrightarrow> prefix S (stderr' (clients w (listener pr)))"
          using h2 [OF Some] by simp
        then show ?thesis using r h1 h2 Exit \<open>procs w p = Some pr\<close> Some
          by (auto simp add: on_exit_settled' on_exit_client split: if_splits)
      qed
    qed
  next
    case (Timeout t)
    show ?thesis
    proof (cases "timers w t")
      case None
      then show ?thesis using r h1 h2 Timeout by (auto simp: on_timeout_def)
    next
      case (Some tm)
      show ?thesis using r h1 h2 Timeout Some
        by (auto simp add: on_timeout_settled on_timeout_client split: if_splits)
    qed
  qed
  then show ?thesis by blast
qed

lemma stderr_carried_run:
  assumes "\<And>r. (c, Resolved r) \<in> set (settled w) \<Longrightarrow> prefix S (stderr r)"
    and "\<And>k' q. pending (clients w k') = Some q \<Longrightarrow> resolve q = c \<Longrightarrow>
                k' = k \<and> prefix S (stderr' (clients w k))"
  shows "(c, Resolved r) \<in> set (settled (run es w)) \<Longrightarrow> prefix S (stderr r)"
  using assms
proof (induction es arbitrary: w)
  case Nil
  then show ?case by simp
next
  case (Cons e es)
  from stderr_carried_step [of c w S k e] Cons.prems(2,3)
  have a: "\<And>r. (c, Resolved r) \<in> set (settled (step e w)) \<Longrightarrow> prefix S (stderr r)"
    and b: "\<And>k' q. pending (clients (step e w) k') = Some q \<Longrightarrow> resolve q = c \<Longrightarrow>
                k' = k \<and> prefix S (stderr' (clients (step e w) k))"
    by blast+
  show ?case using Cons.IH [OF _ a b] Cons.prems(1) by simp
qed


lemma consistent_settled_lt:
  "consistent w \<Longrightarrow> (c, x) \<in> set (settled w) \<Longrightarrow> c < next_cid w"
proof -
  assume c: "consistent w" and m: "(c, x) \<in> set (settled w)"
  have "settled_for c w \<noteq> []"
    using m by (force simp: settled_for_def filter_empty_conv)
  then show ?thesis using c by (simp add: consistent_def)
qed

lemma consistent_pending_lt:
  "consistent w \<Longrightarrow> pending (clients w k) = Some q \<Longrightarrow> resolve q < next_cid w"
proof -
  assume c: "consistent w" and p: "pending (clients w k) = Some q"
  from consistent_pendingD [OF c p] obtain tm
    where "timers w (timer q) = Some tm" "t_reject tm = resolve q" by blast
  then show ?thesis using c unfolding consistent_def by metis
qed

lemma on_exit_dispose:
  "\<exists>w'. on_exit k a b w = dispose k w' \<and> stderr' (clients w' k) = stderr' (clients w k)"
  unfolding on_exit_def Let_def
  by (rule exI, rule conjI, rule refl) (simp split: option.splits)

text \<open>
  C9: the stderr buffer belongs to the client, not to the call. Handling a line,
  the marker included, leaves it as it is; the exit handler resolves the call
  with the buffer untouched and only the \<^verbatim>\<open>dispose\<close> that follows empties it.
  So when a call is resolved by the marker, no exit follows, and a second call
  is made on the same client, every Result of the second call has a stderr
  that begins with the stderr of the first call's Result.
\<close>

theorem C9_stderr_process_scoped:
  assumes c: "consistent w" and pr: "procs w c = Some pr" "\<not> rl_closed pr"
    and p1: "pending (clients w (listener pr)) = Some p1" and m: "is_agent_end line"
    and es1: "\<forall>q a b. Exit q a b \<notin> set es1"
    and call2: "prompt (listener pr) prm tmo ev wr (run es1 (step (Line c line) w)) = (Inr c2, w2)"
  shows "(\<forall>k l k'. stderr' (clients (handleLine k l w) k') = stderr' (clients w k')) \<and>
         (\<forall>k a b. \<exists>w'. on_exit k a b w = dispose k w' \<and>
                         stderr' (clients w' k) = stderr' (clients w k)) \<and>
         (\<forall>k. stderr' (clients (dispose k w) k) = []) \<and>
         (\<exists>out. settled (step (Line c line) w) =
                  settled w @
                  [(resolve p1, Resolved \<lparr>stdout = out, stderr = stderr' (clients w (listener pr)),
                                           code = 0, signal = None, killed = None\<rparr>)]) \<and>
         (\<forall>es2 r2. (c2, Resolved r2) \<in> set (settled (run es2 w2)) \<longrightarrow>
                    prefix (stderr' (clients w (listener pr))) (stderr r2))"
proof -
  let ?k = "listener pr"
  let ?S = "stderr' (clients w ?k)"
  let ?w1 = "step (Line c line) w"
  let ?wA = "run es1 ?w1"
  have cA: "consistent ?wA" using c by (intro consistent_run consistent_step)
  have s1: "stderr' (clients ?w1 ?k) = ?S" using pr by (simp add: handleLine_stderr)
  have sA: "prefix ?S (stderr' (clients ?wA ?k))"
    using run_stderr_prefix [of es1 ?w1 ?k] es1 s1 by simp
  from prompt_Inr [OF call2] obtain ch w0
    where pw: "prompt_write ?k prm ?wA = (Inr ch, w0)"
      and c2: "c2 = next_cid w0" and w2: "w2 = snd (prompt_wait ?k ch tmo ev w0)"
    by blast
  have w0: "\<And>k'. pending (clients w0 k') = pending (clients ?wA k')"
    "\<And>k'. stderr' (clients w0 k') = stderr' (clients ?wA k')"
    "settled w0 = settled ?wA" "next_cid w0 = next_cid ?wA"
    using prompt_write_frame [of ?k prm ?wA] pw by simp_all
  have a: "\<And>r. (c2, Resolved r) \<in> set (settled w2) \<Longrightarrow> prefix ?S (stderr r)"
    using consistent_settled_lt [OF cA, of c2] by (auto simp: w2 prompt_wait_frame w0 c2)
  have b: "\<And>k' q. pending (clients w2 k') = Some q \<Longrightarrow> resolve q = c2 \<Longrightarrow>
             k' = ?k \<and> prefix ?S (stderr' (clients w2 ?k))"
  proof -
    fix k' q assume q: "pending (clients w2 k') = Some q" and r: "resolve q = c2"
    have "k' = ?k"
    proof (rule ccontr)
      assume n: "k' \<noteq> ?k"
      then have "pending (clients ?wA k') = Some q"
        using q by (simp add: w2 prompt_wait_def Let_def w0)
      from consistent_pending_lt [OF cA this] show False using r c2 w0 by simp
    qed
    moreover have "prefix ?S (stderr' (clients w2 ?k))"
      using sA by (simp add: w2 prompt_wait_frame w0)
    ultimately show "k' = ?k \<and> prefix ?S (stderr' (clients w2 ?k))" by blast
  qed
  have two: "\<forall>es2 r2. (c2, Resolved r2) \<in> set (settled (run es2 w2)) \<longrightarrow> prefix ?S (stderr r2)"
  proof (intro allI impI)
    fix es2 r2 assume x: "(c2, Resolved r2) \<in> set (settled (run es2 w2))"
    show "prefix ?S (stderr r2)"
    proof (rule stderr_carried_run [where c = c2 and w = w2 and k = "?k" and es = es2])
      show "(c2, Resolved r2) \<in> set (settled (run es2 w2))" by (rule x)
    next
      fix r assume "(c2, Resolved r) \<in> set (settled w2)"
      then show "prefix ?S (stderr r)" by (rule a)
    next
      fix k' q assume "pending (clients w2 k') = Some q" "resolve q = c2"
      then show "k' = ?k \<and> prefix ?S (stderr' (clients w2 ?k))" by (rule b)
    qed
  qed
  have one: "\<exists>out. settled ?w1 =
                  settled w @
                  [(resolve p1, Resolved \<lparr>stdout = out, stderr = ?S,
                                           code = 0, signal = None, killed = None\<rparr>)]"
    using pr p1 m by (simp add: handleLine_settled)
  show ?thesis using one two on_exit_dispose [of _ _ _ w]
    by (simp add: handleLine_stderr)
qed


lemma example_second_call:
  \<open>prompt 0 (JStr ''again'') 1000 None Flushed
     (run [Data 0 ''E2''] (step (Line 0 ''{"type":"agent_end"}'') (step (Data 0 ''E1'') example_pending)))
   = (Inr 1,
     \<lparr>clients = (\<lambda>k. fresh_client [] None)
        (0 := \<lparr>argv' = [''pi'', ''--mode'', ''rpc''], cwd' = None, child = Some 0, rl = Some 0,
               stderr' = ''E1E2'', buffer = [], idleTimer = None,
               pending = Some \<lparr>resolve = 1, reject = 1, timer = 1, onEvent' = None\<rparr>\<rparr>),
      procs = [0 \<mapsto> \<lparr>spawnfile = ''pi'', spawnargs = [''--mode'', ''rpc''], spawncwd = None,
                       listener = 0, stdin = [envelope ''hi'', envelope ''again''],
                       killed' = False, signals = [], exited = False, rl_closed = False\<rparr>],
      timers = [1 \<mapsto> \<lparr>capMs = 1000, t_reject = 1, t_child = 0, t_this = 0\<rparr>],
      settled = [(0, Resolved \<lparr>stdout = ''{"type":"agent_end"}'', stderr = ''E1'', code = 0,
                                signal = None, killed = None\<rparr>)],
      observed = [], warnings = [],
      singleton = Some (''|pi --mode rpc'', 0),
      next_pid = 1, next_tid = 2, next_cid = 2, next_kid = 1\<rparr>)\<close>
  by (simp add: example_pending_eq handleLine_def Let_def is_agent_end_marker upd_client_def
        notify_def clearTimeout_def settle_def prompt_def prompt_write_def
        normalizePiPrompt_def ensureChild_def upd_proc_def prompt_wait_def fun_upd_twist)


text \<open>C9 on the example: the child writes E1 to stderr during the first call
  and E2 after it; the second call, resolved by the marker after E3, reports
  all three.\<close>

theorem C9_witness:
  \<open>consistent (step (Data 0 ''E1'') example_pending) \<and>
   pending (clients (step (Data 0 ''E1'') example_pending) 0) =
     Some \<lparr>resolve = 0, reject = 0, timer = 0, onEvent' = None\<rparr> \<and>
   stderr' (clients (step (Data 0 ''E1'') example_pending) 0) = ''E1'' \<and>
   fst (prompt 0 (JStr ''again'') 1000 None Flushed
         (run [Data 0 ''E2'']
            (step (Line 0 ''{"type":"agent_end"}'') (step (Data 0 ''E1'') example_pending))))
     = Inr 1 \<and>
   (1, Resolved \<lparr>stdout = ''{"type":"agent_end"}'', stderr = ''E1E2E3'', code = 0, signal = None,
                  killed = None\<rparr>)
     \<in> set (settled
         (run [Data 0 ''E3'', Line 0 ''{"type":"agent_end"}'']
            (snd (prompt 0 (JStr ''again'') 1000 None Flushed
               (run [Data 0 ''E2'']
                  (step (Line 0 ''{"type":"agent_end"}'')
                     (step (Data 0 ''E1'') example_pending))))))) \<and>
   prefix (stderr' (clients (step (Data 0 ''E1'') example_pending) 0)) ''E1E2E3''\<close>
proof -
  let ?pr = "\<lparr>spawnfile = ''pi'', spawnargs = [''--mode'', ''rpc''], spawncwd = None,
           listener = 0, stdin = [envelope ''hi''], killed' = False, signals = [],
           exited = False, rl_closed = False\<rparr>"
  let ?p = "\<lparr>resolve = 0, reject = 0, timer = 0, onEvent' = None\<rparr>"
  let ?r2 = \<open>\<lparr>stdout = ''{"type":"agent_end"}'', stderr = ''E1E2E3'', code = 0, signal = None,
                  killed = None\<rparr>\<close>
  let ?w = "step (Data 0 ''E1'') example_pending"
  let ?call = \<open>prompt 0 (JStr ''again'') 1000 None Flushed
               (run [Data 0 ''E2''] (step (Line 0 ''{"type":"agent_end"}'') ?w))\<close>
  have c: "consistent ?w"
    by (intro consistent_step example_pending_consistent)
  have l: "listener ?pr = 0" by simp
  have a: "procs ?w 0 = Some ?pr" and b: "\<not> rl_closed ?pr"
    and p: "pending (clients ?w 0) = Some ?p" and s: "stderr' (clients ?w 0) = ''E1''"
    by (simp_all add: example_pending_eq)
  have p': "pending (clients ?w (listener ?pr)) = Some ?p"
    unfolding l by (rule p)
  have es1: "\<forall>q a b. Exit q a b \<notin> set [Data 0 ''E2'']" by simp
  have f: "fst ?call = Inr 1"
    by (simp only: example_second_call fst_conv)
  have call: \<open>prompt (listener ?pr) (JStr ''again'') 1000 None Flushed
                 (run [Data 0 ''E2''] (step (Line 0 ''{"type":"agent_end"}'') ?w)) =
               (Inr 1, snd ?call)\<close>
    unfolding l by (simp only: example_second_call snd_conv)
  have m: \<open>(1, Resolved ?r2)
             \<in> set (settled (run [Data 0 ''E3'', Line 0 ''{"type":"agent_end"}''] (snd ?call)))\<close>
    unfolding example_second_call snd_conv
    by (simp add: handleLine_def Let_def is_agent_end_marker)
  from C9_stderr_process_scoped [OF c a b p' is_agent_end_marker es1 call]
  have "\<forall>es2 r2. (1, Resolved r2) \<in> set (settled (run es2 (snd ?call))) \<longrightarrow>
                   prefix (stderr' (clients ?w (listener ?pr))) (stderr r2)"
    by blast
  with m have "prefix (stderr' (clients ?w (listener ?pr))) (stderr ?r2)" by blast
  then have x: "prefix (stderr' (clients ?w 0)) ''E1E2E3''"
    unfolding l by (simp only: TauRpcResult.simps)
  show ?thesis
    by (intro conjI) (rule c, rule p, rule s, rule f, rule m, rule x)
qed

end
